theory Spec2Isabelle
  imports Main "HOL-Library.Sublist"
begin

section \<open>Data model of the proxy\<close>

text \<open>
  The program is \<^verbatim>\<open>model-proxy.py\<close>. Python's \<^verbatim>\<open>str\<close> is a sequence of code
  points; a text is modelled as a \<^typ>\<open>string\<close> whose characters are the code points
  below 256, one \<^typ>\<open>char\<close> per code point. A Python dictionary read with
  \<^verbatim>\<open>.get(key, default)\<close> becomes a record field of option type, \<open>None\<close> standing
  for the absent key.
\<close>

text \<open>
  A tool call as the program builds it:
  \<^verbatim>\<open>{'id': .., 'type': 'function', 'function': {'name': .., 'arguments': ..}}\<close>.
  The \<^verbatim>\<open>type\<close> entry is the constant \<^verbatim>\<open>'function'\<close> at every place of the source
  that builds a call, so it is not a field.
\<close>

record tool_call =
  tc_id :: string
  tc_name :: string
  tc_arguments :: string

text \<open>A part of a list-valued message content: a dictionary (its \<^verbatim>\<open>type\<close> and
  \<^verbatim>\<open>text\<close> entries) or a bare string.\<close>

datatype part = PDict "string option" "string option" | PStr string

text \<open>The content of a message: a string, a list of parts, or a value that is neither
  (\<^verbatim>\<open>None\<close>).\<close>

datatype content = CStr string | CList "part list" | CNull

record message =
  m_role :: "string option"
  m_content :: "content option"
  m_tool_calls :: "tool_call list option"
  m_tool_call_id :: "string option"
  m_name :: "string option"

section \<open>History trimming (\<^verbatim>\<open>do_POST\<close>, Message Trimming)\<close>

definition MAX_HISTORY :: nat where
  "MAX_HISTORY = 4"

definition is_system :: "message \<Rightarrow> bool" where
  "is_system m \<longleftrightarrow> m_role m = Some ''system'' \<or> m_role m = Some ''developer''"

text \<open>Python's \<^verbatim>\<open>xs[-n:]\<close> for \<open>n > 0\<close>: the last \<open>n\<close> elements, all of them when
  there are fewer.\<close>

definition py_last_n :: "nat \<Rightarrow> 'a list \<Rightarrow> 'a list" where
  "py_last_n n xs = drop (length xs - n) xs"

definition trim_messages :: "message list \<Rightarrow> message list" where
  "trim_messages cleaned_msgs =
     (let system_msgs = filter is_system cleaned_msgs;
          convo_msgs = filter (\<lambda>m. \<not> is_system m) cleaned_msgs;
          convo_msgs' = (if length convo_msgs > MAX_HISTORY
                         then py_last_n MAX_HISTORY convo_msgs else convo_msgs)
      in system_msgs @ convo_msgs')"

section \<open>The streaming emitters\<close>

text \<open>The fields of the parsed backend answer that the emitters read. \<open>None\<close> is the
  absent key (for the content and the tool calls also \<^verbatim>\<open>null\<close>).\<close>

type_synonym usage = "(string \<times> int) list"

record completion =
  c_id :: "string option"
  c_created :: "int option"
  c_model :: "string option"
  c_role :: "string option"
  c_content :: "string option"
  c_tool_calls :: "tool_call list option"
  c_finish :: "string option"
  c_usage :: "usage option"

text \<open>The \<^verbatim>\<open>delta\<close> dictionary of a chunk.\<close>

datatype delta =
    ToolDelta "string option" nat string string string
  | RoleDelta string string
  | ContentDelta string
  | EmptyDelta

record chunk =
  ch_id :: string
  ch_created :: int
  ch_model :: string
  ch_delta :: delta
  ch_finish :: "string option"
  ch_usage :: "usage option"

datatype sse_event = Data chunk | Done

text \<open>\<^verbatim>\<open>d.get(k, default)\<close>.\<close>

definition get_or :: "'a option \<Rightarrow> 'a \<Rightarrow> 'a" where
  "get_or v d = (case v of None \<Rightarrow> d | Some x \<Rightarrow> x)"

text \<open>\<^verbatim>\<open>range(lo, hi, step)\<close> for a positive step.\<close>

function range_step :: "nat \<Rightarrow> nat \<Rightarrow> nat \<Rightarrow> nat list" where
  "range_step lo hi step =
     (if step = 0 then [] else if lo < hi then lo # range_step (lo + step) hi step else [])"
  by pat_completeness auto
termination
  by (relation "measure (\<lambda>(lo, hi, step). hi - lo)") auto

declare range_step.simps [simp del]

definition chunk_size :: nat where
  "chunk_size = 100"

text \<open>\<^verbatim>\<open>content[i:i+chunk_size]\<close> for each \<^verbatim>\<open>i in range(0, max(len(content), 1), chunk_size)\<close>.\<close>

definition content_pieces :: "string \<Rightarrow> string list" where
  "content_pieces content =
     map (\<lambda>i. take chunk_size (drop i content))
       (range_step 0 (max (length content) 1) chunk_size)"

text \<open>The tool-call chunks of \<^verbatim>\<open>_proxy\<close>: \<^verbatim>\<open>enumerate(tool_calls_resp)\<close>, the role on
  the chunk of index 0 only.\<close>

fun tool_chunks :: "string \<Rightarrow> int \<Rightarrow> string \<Rightarrow> string \<Rightarrow> nat \<Rightarrow> tool_call list \<Rightarrow> sse_event list" where
  "tool_chunks rid created model role idx [] = []"
| "tool_chunks rid created model role idx (tc # tcs) =
     Data \<lparr>ch_id = rid, ch_created = created, ch_model = model,
           ch_delta = ToolDelta (if idx = 0 then Some role else None) idx
                        (tc_id tc) (tc_name tc) (tc_arguments tc),
           ch_finish = None, ch_usage = None\<rparr>
     # tool_chunks rid created model role (Suc idx) tcs"

text \<open>A list is true in Python when it is not empty.\<close>

definition truthy_list :: "'a list option \<Rightarrow> bool" where
  "truthy_list v \<longleftrightarrow> (case v of None \<Rightarrow> False | Some xs \<Rightarrow> xs \<noteq> [])"

text \<open>The stream built by \<^verbatim>\<open>_proxy\<close> when \<^verbatim>\<open>client_wants_stream\<close> holds
  (\<^verbatim>\<open>sse_chunks\<close>, before \<^verbatim>\<open>json.dumps\<close> and the \<^verbatim>\<open>data: \<close> framing).\<close>

definition proxy_sse :: "string \<Rightarrow> completion \<Rightarrow> sse_event list" where
  "proxy_sse original_model resp =
     (let content = get_or (c_content resp) '''';
          role = get_or (c_role resp) ''assistant'';
          tool_calls_resp = c_tool_calls resp;
          finish = get_or (c_finish resp) ''stop'';
          resp_id = get_or (c_id resp) ''chatcmpl-0'';
          created = get_or (c_created resp) 0;
          model = get_or (c_model resp) original_model;
          mk = (\<lambda>d f u. Data \<lparr>ch_id = resp_id, ch_created = created, ch_model = model,
                               ch_delta = d, ch_finish = f, ch_usage = u\<rparr>)
      in (if truthy_list tool_calls_resp
          then tool_chunks resp_id created model role 0 (get_or tool_calls_resp [])
               @ [mk EmptyDelta (Some ''tool_calls'') (Some (get_or (c_usage resp) []))]
          else mk (RoleDelta role '''') None None
               # map (\<lambda>piece. mk (ContentDelta piece) None None) (content_pieces content)
               @ [mk EmptyDelta (Some finish) (Some (get_or (c_usage resp) []))])
         @ [Done])"

text \<open>The stream built by \<^verbatim>\<open>_direct_proxy\<close>: the same chunks, the model name being the
  client's.\<close>

definition direct_proxy_sse :: "string \<Rightarrow> completion \<Rightarrow> sse_event list" where
  "direct_proxy_sse original_model resp =
     (let content = get_or (c_content resp) '''';
          role = get_or (c_role resp) ''assistant'';
          tool_calls_resp = c_tool_calls resp;
          finish = get_or (c_finish resp) ''stop'';
          resp_id = get_or (c_id resp) ''chatcmpl-0'';
          created = get_or (c_created resp) 0;
          model = original_model;
          mk = (\<lambda>d f u. Data \<lparr>ch_id = resp_id, ch_created = created, ch_model = model,
                               ch_delta = d, ch_finish = f, ch_usage = u\<rparr>)
      in (if truthy_list tool_calls_resp
          then tool_chunks resp_id created model role 0 (get_or tool_calls_resp [])
               @ [mk EmptyDelta (Some ''tool_calls'') (Some (get_or (c_usage resp) []))]
          else mk (RoleDelta role '''') None None
               # map (\<lambda>piece. mk (ContentDelta piece) None None) (content_pieces content)
               @ [mk EmptyDelta (Some finish) (Some (get_or (c_usage resp) []))])
         @ [Done])"

text \<open>The stream built by \<^verbatim>\<open>do_POST\<close> for a forced tool call (the directive shortcut);
  \<open>now\<close> is \<^verbatim>\<open>int(time.time())\<close>. The final chunk has no \<^verbatim>\<open>usage\<close> entry.\<close>

definition forced_sse :: "int \<Rightarrow> string \<Rightarrow> tool_call list \<Rightarrow> sse_event list" where
  "forced_sse now original_model forced_tc =
     tool_chunks ''chatcmpl-forced-0'' now original_model ''assistant'' 0 forced_tc
     @ [Data \<lparr>ch_id = ''chatcmpl-forced-0'', ch_created = now, ch_model = original_model,
              ch_delta = EmptyDelta, ch_finish = Some ''tool_calls'', ch_usage = None\<rparr>]
     @ [Done]"

text \<open>The unary answer of the directive shortcut (\<^verbatim>\<open>synth_resp\<close>).\<close>

definition synth_resp :: "int \<Rightarrow> string \<Rightarrow> tool_call list \<Rightarrow> completion" where
  "synth_resp now original_model forced_tc =
     \<lparr>c_id = Some ''chatcmpl-forced-0'', c_created = Some now, c_model = Some original_model,
      c_role = Some ''assistant'', c_content = None, c_tool_calls = Some forced_tc,
      c_finish = Some ''tool_calls'',
      c_usage = Some [(''prompt_tokens'', 0), (''completion_tokens'', 0), (''total_tokens'', 0)]\<rparr>"

subsection \<open>What a client reads back from a stream\<close>

text \<open>The payloads of the content-delta events, in emission order.\<close>

fun content_deltas :: "sse_event list \<Rightarrow> string list" where
  "content_deltas [] = []"
| "content_deltas (Done # es) = content_deltas es"
| "content_deltas (Data c # es) =
     (case ch_delta c of ContentDelta p \<Rightarrow> p # content_deltas es | _ \<Rightarrow> content_deltas es)"

text \<open>The tool calls carried by the tool-call-delta events, in emission order, each with
  its index.\<close>

fun tool_deltas :: "sse_event list \<Rightarrow> (nat \<times> tool_call) list" where
  "tool_deltas [] = []"
| "tool_deltas (Done # es) = tool_deltas es"
| "tool_deltas (Data c # es) =
     (case ch_delta c of
        ToolDelta r i cid nm args \<Rightarrow>
          (i, \<lparr>tc_id = cid, tc_name = nm, tc_arguments = args\<rparr>) # tool_deltas es
      | _ \<Rightarrow> tool_deltas es)"

text \<open>A message with a role and a string content and no other entry.\<close>

definition simple_msg :: "string \<Rightarrow> string \<Rightarrow> message" where
  "simple_msg role text =
     \<lparr>m_role = Some role, m_content = Some (CStr text), m_tool_calls = None,
      m_tool_call_id = None, m_name = None\<rparr>"

subsection \<open>Sample answers\<close>

text \<open>A backend answer with the given content and tool calls and no other entry.\<close>

definition answer :: "string option \<Rightarrow> tool_call list option \<Rightarrow> completion" where
  "answer content calls =
     \<lparr>c_id = None, c_created = None, c_model = None, c_role = None, c_content = content,
      c_tool_calls = calls, c_finish = None, c_usage = None\<rparr>"

definition sample_call :: tool_call where
  "sample_call = \<lparr>tc_id = ''call_fallback_0'', tc_name = ''exec'',
                   tc_arguments = ''{\"command\": \"ls\"}''\<rparr>"

section \<open>The model-name rewriter\<close>

text \<open>A Python dictionary whose key order matters is an association list in insertion
  order; \<^verbatim>\<open>d[k] = v\<close> overwrites the value of a present key in place and appends an
  absent one.\<close>

fun dict_set :: "('k \<times> 'v) list \<Rightarrow> 'k \<Rightarrow> 'v \<Rightarrow> ('k \<times> 'v) list" where
  "dict_set [] k v = [(k, v)]"
| "dict_set ((k', v') # d) k v =
     (if k' = k then (k, v) # d else (k', v') # dict_set d k v)"

definition MODEL_MAP :: "(string \<times> string) list" where
  "MODEL_MAP =
     [(''gpt-5.2'', ''llama3.3:latest''),
      (''gpt-5.1-codex'', ''qwen2.5-coder:32b''),
      (''gpt-5'', ''llama3.3:latest''),
      (''gpt-5-mini'', ''phi4:latest''),
      (''gpt-4.1'', ''llama3.3:latest'')]"

text \<open>\<^verbatim>\<open>REVERSE_MAP = {v: k for k, v in MODEL_MAP.items()}\<close>, then
  \<^verbatim>\<open>REVERSE_MAP['llama3.3:latest'] = 'gpt-5.2'\<close>.\<close>

definition REVERSE_MAP :: "(string \<times> string) list" where
  "REVERSE_MAP =
     dict_set (foldl (\<lambda>d (k, v). dict_set d v k) [] MODEL_MAP) ''llama3.3:latest'' ''gpt-5.2''"

text \<open>\<^verbatim>\<open>s.replace(old, new)\<close>: the occurrences of \<open>old\<close> are found from the left and do
  not overlap; an empty \<open>old\<close> matches before every character and at the end.\<close>

function str_replace :: "'a list \<Rightarrow> 'a list \<Rightarrow> 'a list \<Rightarrow> 'a list" where
  "str_replace old new s =
     (if old = [] then new @ concat (map (\<lambda>c. c # new) s)
      else if s = [] then []
      else if prefix old s then new @ str_replace old new (drop (length old) s)
      else hd s # str_replace old new (tl s))"
  by pat_completeness auto
termination
  by (relation "measure (\<lambda>(old, new, s). length s)") auto

declare str_replace.simps [simp del]

subsection \<open>UTF-8\<close>

text \<open>The body of a response is a sequence of bytes, a \<^typ>\<open>string\<close> with one
  \<^typ>\<open>char\<close> per byte. Its decoded text is a sequence of code points, natural
  numbers.\<close>

datatype py_error = JSONDecodeError | KeyError | UnboundLocalError string | UnicodeEncodeError

definition REPLACEMENT :: nat where
  "REPLACEMENT = 0xFFFD"

definition is_cont :: "nat \<Rightarrow> bool" where
  "is_cont b \<longleftrightarrow> 0x80 \<le> b \<and> b < 0xC0"

text \<open>\<^verbatim>\<open>bytes.decode('utf-8', errors='replace')\<close>, on the values of the bytes. A lead
  byte that cannot start a sequence is replaced alone; a sequence broken by a byte that
  cannot continue it is replaced up to that byte, where decoding goes on; a sequence cut
  by the end of the input is replaced as a whole. Each replacement is one code point
  \<open>REPLACEMENT\<close>.\<close>

fun utf8_decode_values :: "nat list \<Rightarrow> nat list" where
  "utf8_decode_values [] = []"
| "utf8_decode_values (b0 # bs) =
     (if b0 < 0x80 then b0 # utf8_decode_values bs
      else if b0 < 0xC2 then REPLACEMENT # utf8_decode_values bs
      else if b0 < 0xE0 then
        (case bs of
           [] \<Rightarrow> [REPLACEMENT]
         | b1 # r1 \<Rightarrow>
             if \<not> is_cont b1 then REPLACEMENT # utf8_decode_values bs
             else ((b0 - 0xC0) * 64 + (b1 - 0x80)) # utf8_decode_values r1)
      else if b0 < 0xF0 then
        (case bs of
           [] \<Rightarrow> [REPLACEMENT]
         | b1 # r1 \<Rightarrow>
             if \<not> is_cont b1 \<or> (if b1 < 0xA0 then b0 = 0xE0 else b0 = 0xED)
             then REPLACEMENT # utf8_decode_values bs
             else
               (case r1 of
                  [] \<Rightarrow> [REPLACEMENT]
                | b2 # r2 \<Rightarrow>
                    if \<not> is_cont b2 then REPLACEMENT # utf8_decode_values r1
                    else ((b0 - 0xE0) * 4096 + (b1 - 0x80) * 64 + (b2 - 0x80))
                         # utf8_decode_values r2))
      else if b0 < 0xF5 then
        (case bs of
           [] \<Rightarrow> [REPLACEMENT]
         | b1 # r1 \<Rightarrow>
             if \<not> is_cont b1 \<or> (if b1 < 0x90 then b0 = 0xF0 else b0 = 0xF4)
             then REPLACEMENT # utf8_decode_values bs
             else
               (case r1 of
                  [] \<Rightarrow> [REPLACEMENT]
                | b2 # r2 \<Rightarrow>
                    if \<not> is_cont b2 then REPLACEMENT # utf8_decode_values r1
                    else
                      (case r2 of
                         [] \<Rightarrow> [REPLACEMENT]
                       | b3 # r3 \<Rightarrow>
                           if \<not> is_cont b3 then REPLACEMENT # utf8_decode_values r2
                           else ((b0 - 0xF0) * 262144 + (b1 - 0x80) * 4096
                                 + (b2 - 0x80) * 64 + (b3 - 0x80))
                                # utf8_decode_values r3)))
      else REPLACEMENT # utf8_decode_values bs)"

definition utf8_decode :: "string \<Rightarrow> nat list" where
  "utf8_decode data_bytes = utf8_decode_values (map of_char data_bytes)"

text \<open>The UTF-8 form of one code point; a surrogate has none, and \<^verbatim>\<open>str.encode\<close> raises
  \<^verbatim>\<open>UnicodeEncodeError\<close> on it.\<close>

definition utf8_encode_point :: "nat \<Rightarrow> string option" where
  "utf8_encode_point c =
     (if c < 0x80 then Some [char_of c]
      else if c < 0x800 then Some [char_of (0xC0 + c div 64), char_of (0x80 + c mod 64)]
      else if 0xD800 \<le> c \<and> c < 0xE000 then None
      else if c < 0x10000
        then Some [char_of (0xE0 + c div 4096), char_of (0x80 + (c div 64) mod 64),
                   char_of (0x80 + c mod 64)]
      else if c < 0x110000
        then Some [char_of (0xF0 + c div 262144), char_of (0x80 + (c div 4096) mod 64),
                   char_of (0x80 + (c div 64) mod 64), char_of (0x80 + c mod 64)]
      else None)"

text \<open>\<^verbatim>\<open>text.encode('utf-8')\<close>.\<close>

definition utf8_encode :: "nat list \<Rightarrow> py_error + string" where
  "utf8_encode text =
     (if list_all (\<lambda>c. utf8_encode_point c \<noteq> None) text
      then Inr (concat (map (\<lambda>c. the (utf8_encode_point c)) text))
      else Inl UnicodeEncodeError)"

text \<open>The code points of a text of the program (see the convention on texts above).\<close>

definition code_points :: "string \<Rightarrow> nat list" where
  "code_points s = map of_char s"

subsection \<open>The rewrite\<close>

text \<open>The loop of \<^verbatim>\<open>rewrite_model_in_response\<close> on the decoded text: one
  \<^verbatim>\<open>replace\<close> for each key of \<^verbatim>\<open>REVERSE_MAP\<close>, in the order of the keys. The values of
  \<^verbatim>\<open>REVERSE_MAP\<close> are not read.\<close>

definition rewrite_text :: "nat list \<Rightarrow> nat list \<Rightarrow> nat list" where
  "rewrite_text text original_model =
     foldl (\<lambda>t local_name. str_replace (code_points local_name) original_model t) text
       (map fst REVERSE_MAP)"

text \<open>\<^verbatim>\<open>rewrite_model_in_response\<close>: the bytes are decoded, the text is rewritten and
  encoded again.\<close>

definition rewrite_model_in_response :: "string \<Rightarrow> string \<Rightarrow> py_error + string" where
  "rewrite_model_in_response data_bytes original_model =
     utf8_encode (rewrite_text (utf8_decode data_bytes) (code_points original_model))"

text \<open>The loop as the specification words it, for comparison: every known backend id is
  replaced by its own client-facing counterpart, the value of \<^verbatim>\<open>REVERSE_MAP\<close>.\<close>

definition rewrite_by_counterpart :: "nat list \<Rightarrow> nat list" where
  "rewrite_by_counterpart text =
     foldl (\<lambda>t (local_name, client_name).
              str_replace (code_points local_name) (code_points client_name) t)
       text REVERSE_MAP"

text \<open>A text takes part in no occurrence of a key when it does not contain the key, is
  not contained in it, and no end of the text is an end of the key: then an occurrence of
  the key in a text around it lies on one side of it.\<close>

definition inert :: "'a list \<Rightarrow> 'a list \<Rightarrow> bool" where
  "inert x k \<longleftrightarrow>
     \<not> sublist k x \<and> \<not> sublist x k
     \<and> list_all (\<lambda>u. u = [] \<or> \<not> prefix u k) (suffixes x)
     \<and> list_all (\<lambda>u. u = [] \<or> \<not> suffix u k) (prefixes x)"

text \<open>A key has no border when no proper part of it is both a beginning and an end of
  it: then two occurrences of the key do not overlap.\<close>

definition border_free :: "'a list \<Rightarrow> bool" where
  "border_free k \<longleftrightarrow> list_all (\<lambda>u. u = [] \<or> u = k \<or> \<not> suffix u k) (prefixes k)"

text \<open>The keys of \<^verbatim>\<open>REVERSE_MAP\<close> as texts, in the order of the dictionary.\<close>

definition backend_ids :: "nat list list" where
  "backend_ids = map (\<lambda>(local_name, client_name). code_points local_name) REVERSE_MAP"

text \<open>A text written as gaps, each followed by a separator, and a tail; and a text in
  which none of the keys occurs.\<close>

definition interleaved :: "('a list \<times> 'a list) list \<Rightarrow> 'a list \<Rightarrow> 'a list" where
  "interleaved parts tail = concat (map (\<lambda>(g, s). g @ s) parts) @ tail"

definition free_of :: "'a list list \<Rightarrow> 'a list \<Rightarrow> bool" where
  "free_of ks g \<longleftrightarrow> list_all (\<lambda>k. \<not> sublist k g) ks"

section \<open>Python strings\<close>

definition NL :: char where
  "NL = CHR 0x0A"

definition SQ :: char where
  "SQ = CHR 0x27"

text \<open>\<^verbatim>\<open>str.isspace\<close> on the code points below 256; the class \<^verbatim>\<open>\s\<close> of \<^verbatim>\<open>re\<close> is the
  same set.\<close>

definition is_space :: "char \<Rightarrow> bool" where
  "is_space c \<longleftrightarrow>
     (let n = (of_char c :: nat)
      in (9 \<le> n \<and> n \<le> 13) \<or> (28 \<le> n \<and> n \<le> 32) \<or> n = 133 \<or> n = 160)"

text \<open>The class \<^verbatim>\<open>\w\<close> of \<^verbatim>\<open>re\<close> on the code points below 256: the alphanumeric code
  points and the underscore.\<close>

definition is_word :: "char \<Rightarrow> bool" where
  "is_word c \<longleftrightarrow>
     (let n = (of_char c :: nat)
      in (48 \<le> n \<and> n \<le> 57) \<or> (65 \<le> n \<and> n \<le> 90) \<or> n = 95 \<or> (97 \<le> n \<and> n \<le> 122)
         \<or> n = 170 \<or> n = 178 \<or> n = 179 \<or> n = 181 \<or> n = 185 \<or> n = 186
         \<or> (188 \<le> n \<and> n \<le> 190) \<or> (192 \<le> n \<and> n \<le> 214) \<or> (216 \<le> n \<and> n \<le> 246)
         \<or> 248 \<le> n)"

definition is_digit :: "char \<Rightarrow> bool" where
  "is_digit c \<longleftrightarrow> (let n = (of_char c :: nat) in 48 \<le> n \<and> n \<le> 57)"

text \<open>\<^verbatim>\<open>str.lower\<close> on one code point below 256.\<close>

definition lower_char :: "char \<Rightarrow> char" where
  "lower_char c =
     (let n = (of_char c :: nat)
      in if (65 \<le> n \<and> n \<le> 90) \<or> (192 \<le> n \<and> n \<le> 222 \<and> n \<noteq> 215)
         then char_of (n + 32) else c)"

definition py_lower :: "string \<Rightarrow> string" where
  "py_lower s = map lower_char s"

text \<open>The program calls \<^verbatim>\<open>str.upper\<close> only to compare the result with \<^verbatim>\<open>'NO_REPLY'\<close>.
  A code point above 127 is mapped by \<^verbatim>\<open>upper\<close> to code points above 127 or to
  \<^verbatim>\<open>SS\<close>, so the comparison has the same result when only the letters a to z are
  raised.\<close>

definition upper_char :: "char \<Rightarrow> char" where
  "upper_char c =
     (let n = (of_char c :: nat) in if 97 \<le> n \<and> n \<le> 122 then char_of (n - 32) else c)"

definition py_upper :: "string \<Rightarrow> string" where
  "py_upper s = map upper_char s"

text \<open>\<^verbatim>\<open>s.strip()\<close>.\<close>

definition py_strip :: "string \<Rightarrow> string" where
  "py_strip s = rev (dropWhile is_space (rev (dropWhile is_space s)))"

text \<open>\<^verbatim>\<open>s.startswith(p)\<close> is \<^const>\<open>prefix\<close>; \<^verbatim>\<open>p in s\<close> is \<^const>\<open>sublist\<close>.\<close>

text \<open>\<^verbatim>\<open>str(n)\<close> for a natural number.\<close>

fun digits_of :: "nat \<Rightarrow> nat \<Rightarrow> string" where
  "digits_of 0 n = []"
| "digits_of (Suc fuel) n =
     (if n < 10 then [char_of (48 + n)]
      else digits_of fuel (n div 10) @ [char_of (48 + n mod 10)])"

definition str_nat :: "nat \<Rightarrow> string" where
  "str_nat n = digits_of (Suc n) n"

section \<open>Regular expressions\<close>

text \<open>
  The patterns of the program use literals, one-character classes under a counted
  repetition (greedy or lazy), capturing groups, alternatives, and the anchors. A pattern
  is a list of items; the flags of a compiled pattern are written into its items:
  \<open>ILit\<close> is a literal under \<^verbatim>\<open>IGNORECASE\<close>, \<open>Bol\<close> and \<open>Eol\<close> are \<^verbatim>\<open>^\<close> and
  \<^verbatim>\<open>$\<close> under \<^verbatim>\<open>MULTILINE\<close>, \<open>Bos\<close> is \<^verbatim>\<open>^\<close> without it, \<open>AnyChar\<close> is the dot
  under \<^verbatim>\<open>DOTALL\<close> and \<open>NotNewline\<close> the dot without it.
\<close>

datatype cclass = Space | NotSpace | Word | Digit | AnyChar | NotNewline
  | OneOf string | Either cclass cclass

fun in_class :: "cclass \<Rightarrow> char \<Rightarrow> bool" where
  "in_class Space c = is_space c"
| "in_class NotSpace c = (\<not> is_space c)"
| "in_class Word c = is_word c"
| "in_class Digit c = is_digit c"
| "in_class AnyChar c = True"
| "in_class NotNewline c = (c \<noteq> NL)"
| "in_class (OneOf cs) c = (c \<in> set cs)"
| "in_class (Either a b) c = (in_class a c \<or> in_class b c)"

text \<open>\<open>Rep cl lo hi greedy\<close> is the class repeated at least \<open>lo\<close> times and at most
  \<open>hi\<close> times (\<open>None\<close>: unbounded). \<open>GrpEnd\<close> closes a group that was opened on the
  text it holds; it is produced by the matcher only.\<close>

datatype rx = Lit string | ILit string | Rep cclass nat "nat option" bool
  | Bos | Bol | Eol | WordB | Grp "rx list" | GrpEnd string | Alt "rx list list"

text \<open>The state of a match: the character before the position (\<open>None\<close> at the start of
  the text), the text from the position on, and the groups closed so far.\<close>

record mstate =
  ms_prev :: "char option"
  ms_rest :: string
  ms_groups :: "string list"

definition advance :: "nat \<Rightarrow> mstate \<Rightarrow> mstate" where
  "advance k st =
     st\<lparr>ms_prev := (if k = 0 then ms_prev st else Some (ms_rest st ! (k - 1))),
        ms_rest := drop k (ms_rest st)\<rparr>"

definition at_word_boundary :: "mstate \<Rightarrow> bool" where
  "at_word_boundary st \<longleftrightarrow>
     (case ms_prev st of None \<Rightarrow> False | Some c \<Rightarrow> is_word c)
     \<noteq> (case ms_rest st of [] \<Rightarrow> False | c # _ \<Rightarrow> is_word c)"

fun rx_size :: "rx \<Rightarrow> nat" where
  "rx_size (Grp rs) = 2 + sum_list (map rx_size rs)"
| "rx_size (Alt alts) = 1 + sum_list (map (\<lambda>a. 1 + sum_list (map rx_size a)) alts)"
| "rx_size r = 1"

definition rxs_size :: "rx list \<Rightarrow> nat" where
  "rxs_size rs = sum_list (map rx_size rs)"

text \<open>
  The backtracking matcher: \<open>m_seq p st\<close> is the state after the first way, in the
  order in which \<^verbatim>\<open>re\<close> tries them, of matching the whole of \<open>p\<close> from \<open>st\<close>. A greedy
  repetition first tries to take one more character and gives it back when the rest of
  the pattern fails; a lazy one first tries the rest of the pattern. The alternatives are
  tried from the left.
\<close>

function m_seq :: "rx list \<Rightarrow> mstate \<Rightarrow> mstate option" where
  "m_seq [] st = Some st"
| "m_seq (Lit s # rs) st =
     (if prefix s (ms_rest st) then m_seq rs (advance (length s) st) else None)"
| "m_seq (ILit s # rs) st =
     (if length s \<le> length (ms_rest st)
         \<and> py_lower (take (length s) (ms_rest st)) = py_lower s
      then m_seq rs (advance (length s) st) else None)"
| "m_seq (Rep cl lo hi greedy # rs) st =
     (let can_take = (hi \<noteq> Some 0
                      \<and> (case ms_rest st of [] \<Rightarrow> False | c # _ \<Rightarrow> in_class cl c));
          hi' = (case hi of None \<Rightarrow> None | Some h \<Rightarrow> Some (h - 1))
      in if greedy then
           (if can_take then
              (case m_seq (Rep cl (lo - 1) hi' greedy # rs) (advance 1 st) of
                 Some r \<Rightarrow> Some r
               | None \<Rightarrow> if lo = 0 then m_seq rs st else None)
            else if lo = 0 then m_seq rs st else None)
         else
           (if lo = 0 then
              (case m_seq rs st of
                 Some r \<Rightarrow> Some r
               | None \<Rightarrow> if can_take
                         then m_seq (Rep cl (lo - 1) hi' greedy # rs) (advance 1 st)
                         else None)
            else if can_take then m_seq (Rep cl (lo - 1) hi' greedy # rs) (advance 1 st)
            else None))"
| "m_seq (Bos # rs) st = (if ms_prev st = None then m_seq rs st else None)"
| "m_seq (Bol # rs) st =
     (if ms_prev st = None \<or> ms_prev st = Some NL then m_seq rs st else None)"
| "m_seq (Eol # rs) st =
     (if (case ms_rest st of [] \<Rightarrow> True | c # _ \<Rightarrow> c = NL) then m_seq rs st else None)"
| "m_seq (WordB # rs) st = (if at_word_boundary st then m_seq rs st else None)"
| "m_seq (Grp gs # rs) st = m_seq (gs @ GrpEnd (ms_rest st) # rs) st"
| "m_seq (GrpEnd s0 # rs) st =
     m_seq rs (st\<lparr>ms_groups := ms_groups st @ [take (length s0 - length (ms_rest st)) s0]\<rparr>)"
| "m_seq (Alt [] # rs) st = None"
| "m_seq (Alt (a # as) # rs) st =
     (case m_seq (a @ rs) st of Some r \<Rightarrow> Some r | None \<Rightarrow> m_seq (Alt as # rs) st)"
  by pat_completeness auto
termination
  by (relation "measures [\<lambda>(p, st). rxs_size p, \<lambda>(p, st). length (ms_rest st)]")
     (auto simp: rxs_size_def advance_def split: list.splits)

text \<open>A match that starts at the given position.\<close>

definition match_here :: "rx list \<Rightarrow> char option \<Rightarrow> string \<Rightarrow> (nat \<times> string list) option" where
  "match_here p prev s =
     (case m_seq p \<lparr>ms_prev = prev, ms_rest = s, ms_groups = []\<rparr> of
        None \<Rightarrow> None
      | Some st \<Rightarrow> Some (length s - length (ms_rest st), ms_groups st))"

text \<open>\<^verbatim>\<open>pattern.match(s)\<close>: the groups of a match at the start of the text.\<close>

definition re_match :: "rx list \<Rightarrow> string \<Rightarrow> string list option" where
  "re_match p s = map_option snd (match_here p None s)"

text \<open>\<^verbatim>\<open>pattern.search(s)\<close>: the groups of the leftmost match.\<close>

fun search_from :: "rx list \<Rightarrow> char option \<Rightarrow> string \<Rightarrow> string list option" where
  "search_from p prev [] = map_option snd (match_here p prev [])"
| "search_from p prev (c # cs) =
     (case match_here p prev (c # cs) of
        Some (n, gs) \<Rightarrow> Some gs
      | None \<Rightarrow> search_from p (Some c) cs)"

definition re_search :: "rx list \<Rightarrow> string \<Rightarrow> string list option" where
  "re_search p s = search_from p None s"

text \<open>\<^verbatim>\<open>pattern.findall(s)\<close>: the groups of the successive matches, which do not
  overlap. After an empty match the scan moves on by one character.\<close>

function findall_from :: "rx list \<Rightarrow> char option \<Rightarrow> string \<Rightarrow> string list list" where
  "findall_from p prev s =
     (case match_here p prev s of
        None \<Rightarrow> (case s of [] \<Rightarrow> [] | c # cs \<Rightarrow> findall_from p (Some c) cs)
      | Some (n, gs) \<Rightarrow>
          if n = 0 \<or> length s < n
          then gs # (case s of [] \<Rightarrow> [] | c # cs \<Rightarrow> findall_from p (Some c) cs)
          else gs # findall_from p (Some (s ! (n - 1))) (drop n s))"
  by pat_completeness auto
termination
  by (relation "measure (\<lambda>(p, prev, s). length s)") auto

definition re_findall :: "rx list \<Rightarrow> string \<Rightarrow> string list list" where
  "re_findall p s = findall_from p None s"

text \<open>\<^verbatim>\<open>pattern.sub(repl, s)\<close> for a replacement text without group references.\<close>

function sub_from :: "rx list \<Rightarrow> string \<Rightarrow> char option \<Rightarrow> string \<Rightarrow> string" where
  "sub_from p repl prev s =
     (case match_here p prev s of
        None \<Rightarrow> (case s of [] \<Rightarrow> [] | c # cs \<Rightarrow> c # sub_from p repl (Some c) cs)
      | Some (n, gs) \<Rightarrow>
          if n = 0 \<or> length s < n
          then repl @ (case s of [] \<Rightarrow> [] | c # cs \<Rightarrow> c # sub_from p repl (Some c) cs)
          else repl @ sub_from p repl (Some (s ! (n - 1))) (drop n s))"
  by pat_completeness auto
termination
  by (relation "measure (\<lambda>(p, repl, prev, s). length s)") auto

definition re_sub :: "rx list \<Rightarrow> string \<Rightarrow> string \<Rightarrow> string" where
  "re_sub p repl s = sub_from p repl None s"

section \<open>\<^verbatim>\<open>json.dumps\<close> of the argument objects\<close>

definition hex_digit :: "nat \<Rightarrow> char" where
  "hex_digit n = (if n < 10 then char_of (48 + n) else char_of (87 + n))"

text \<open>The escape of one code point in a JSON string, \<^verbatim>\<open>ensure_ascii\<close> being on: the
  printable ASCII code points other than the quote and the backslash stand for
  themselves.\<close>

definition json_escape_char :: "char \<Rightarrow> string" where
  "json_escape_char c =
     (let n = (of_char c :: nat)
      in if c = CHR 0x22 then [CHR 0x5C, CHR 0x22]
         else if c = CHR 0x5C then [CHR 0x5C, CHR 0x5C]
         else if c = CHR 0x0A then [CHR 0x5C, CHR ''n'']
         else if c = CHR 0x0D then [CHR 0x5C, CHR ''r'']
         else if c = CHR 0x09 then [CHR 0x5C, CHR ''t'']
         else if c = CHR 0x08 then [CHR 0x5C, CHR ''b'']
         else if c = CHR 0x0C then [CHR 0x5C, CHR ''f'']
         else if n < 32 \<or> 126 < n
           then [CHR 0x5C, CHR ''u'', CHR ''0'', CHR ''0'', hex_digit (n div 16), hex_digit (n mod 16)]
         else [c])"

definition json_string :: "string \<Rightarrow> string" where
  "json_string s = [CHR 0x22] @ concat (map json_escape_char s) @ [CHR 0x22]"

text \<open>\<^verbatim>\<open>json.dumps({key: value})\<close> for a string value.\<close>

definition dumps_arg :: "string \<Rightarrow> string \<Rightarrow> string" where
  "dumps_arg key val = ''{'' @ json_string key @ '': '' @ json_string val @ ''}''"

text \<open>\<^verbatim>\<open>json.dumps({'command': cmd, 'timeoutMs': n})\<close>.\<close>

definition dumps_command_timeout :: "string \<Rightarrow> nat \<Rightarrow> string" where
  "dumps_command_timeout cmd n =
     ''{'' @ json_string ''command'' @ '': '' @ json_string cmd @ '', ''
       @ json_string ''timeoutMs'' @ '': '' @ str_nat n @ ''}''"

section \<open>Tool definitions\<close>

text \<open>A tool definition of the request: \<^verbatim>\<open>tool.get('type')\<close>, the \<^verbatim>\<open>name\<close> entry
  of its \<^verbatim>\<open>function\<close> (\<open>None\<close> when there is none), and the keys of
  \<^verbatim>\<open>function.parameters.properties\<close> in their order (empty when there are none).\<close>

record tool_def =
  t_type :: "string option"
  t_name :: "string option"
  t_params :: "string list"

definition is_function_tool :: "tool_def \<Rightarrow> bool" where
  "is_function_tool t \<longleftrightarrow> t_type t = Some ''function''"

text \<open>The loop at the head of \<^verbatim>\<open>convert_text_to_tool_calls\<close>: \<^verbatim>\<open>known_tools\<close> and
  \<^verbatim>\<open>tool_params\<close>.\<close>

definition known_tools :: "tool_def list \<Rightarrow> string set" where
  "known_tools tool_defs =
     set (filter (\<lambda>name. name \<noteq> [])
            (map (\<lambda>t. get_or (t_name t) []) (filter is_function_tool tool_defs)))"

definition first_param :: "tool_def \<Rightarrow> string" where
  "first_param t = (case t_params t of [] \<Rightarrow> ''input'' | p # _ \<Rightarrow> p)"

definition tool_params :: "tool_def list \<Rightarrow> (string \<rightharpoonup> string)" where
  "tool_params tool_defs =
     foldl (\<lambda>m t. if is_function_tool t \<and> get_or (t_name t) [] \<noteq> []
                   then m(get_or (t_name t) [] \<mapsto> first_param t) else m)
       Map.empty tool_defs"

section \<open>The text-to-tool-call converter\<close>

text \<open>\<^verbatim>\<open>^TOOL_CALL:\s*(\w+)\s+(.+)$\<close>, \<^verbatim>\<open>MULTILINE\<close>.\<close>

definition TOOL_CALL_PATTERN :: "rx list" where
  "TOOL_CALL_PATTERN =
     [Bol, Lit ''TOOL_CALL:'', Rep Space 0 None True, Grp [Rep Word 1 None True],
      Rep Space 1 None True, Grp [Rep NotNewline 1 None True], Eol]"

text \<open>\<^verbatim>\<open>^exec\s+(.+)$\<close>, \<^verbatim>\<open>MULTILINE\<close>.\<close>

definition BARE_EXEC_PATTERN :: "rx list" where
  "BARE_EXEC_PATTERN =
     [Bol, Lit ''exec'', Rep Space 1 None True, Grp [Rep NotNewline 1 None True], Eol]"

text \<open>\<^verbatim>\<open>```(?:\w*)\n(exec\s+.+?)\n```\<close>, \<^verbatim>\<open>DOTALL\<close>.\<close>

definition MARKDOWN_EXEC_PATTERN :: "rx list" where
  "MARKDOWN_EXEC_PATTERN =
     [Lit ''```'', Rep Word 0 None True, Lit [NL],
      Grp [Lit ''exec'', Rep Space 1 None True, Rep AnyChar 1 None False],
      Lit (NL # ''```'')]"

text \<open>The calls of the first strategy: \<^verbatim>\<open>enumerate(matches)\<close>, a match whose tool name
  is not known being skipped (its index is used up).\<close>

fun explicit_calls :: "string set \<Rightarrow> (string \<rightharpoonup> string) \<Rightarrow> nat \<Rightarrow> string list list
    \<Rightarrow> tool_call list" where
  "explicit_calls known params i [] = []"
| "explicit_calls known params i (m # ms) =
     (case m of
        [tool_name, args_text] \<Rightarrow>
          if tool_name \<notin> known then explicit_calls known params (Suc i) ms
          else \<lparr>tc_id = ''call_'' @ tool_name @ ''_'' @ str_nat i, tc_name = tool_name,
                tc_arguments = dumps_arg (get_or (params tool_name) ''input'')
                                 (py_strip args_text)\<rparr>
               # explicit_calls known params (Suc i) ms
      | _ \<Rightarrow> explicit_calls known params (Suc i) ms)"

text \<open>The calls of the second strategy (a fenced block).\<close>

fun md_calls :: "string \<Rightarrow> nat \<Rightarrow> string list list \<Rightarrow> tool_call list" where
  "md_calls param_name i [] = []"
| "md_calls param_name i (m # ms) =
     (let exec_line = concat m;
          cmd = py_strip exec_line;
          cmd' = (if prefix ''exec '' cmd then py_strip (drop 5 cmd) else cmd)
      in \<lparr>tc_id = ''call_exec_md_'' @ str_nat i, tc_name = ''exec'',
           tc_arguments = dumps_arg param_name cmd'\<rparr>
         # md_calls param_name (Suc i) ms)"

text \<open>The calls of the third strategy (a bare \<^verbatim>\<open>exec\<close> line).\<close>

fun bare_calls :: "string \<Rightarrow> nat \<Rightarrow> string list list \<Rightarrow> tool_call list" where
  "bare_calls param_name i [] = []"
| "bare_calls param_name i (m # ms) =
     \<lparr>tc_id = ''call_exec_bare_'' @ str_nat i, tc_name = ''exec'',
       tc_arguments = dumps_arg param_name (py_strip (concat m))\<rparr>
     # bare_calls param_name (Suc i) ms"

definition convert_text_to_tool_calls :: "string \<Rightarrow> tool_def list
    \<Rightarrow> string \<times> tool_call list option" where
  "convert_text_to_tool_calls content tool_defs =
     (let known = known_tools tool_defs;
          params = tool_params tool_defs;
          tool_calls = explicit_calls known params 0 (re_findall TOOL_CALL_PATTERN content)
      in if tool_calls \<noteq> []
         then (py_strip (re_sub TOOL_CALL_PATTERN [] content), Some tool_calls)
         else if ''exec'' \<in> known then
           (let md_matches = re_findall MARKDOWN_EXEC_PATTERN content
            in if md_matches \<noteq> []
               then (py_strip (re_sub MARKDOWN_EXEC_PATTERN [] content),
                     Some (md_calls (get_or (params ''exec'') ''command'') 0 md_matches))
               else
                 (let bare_matches = re_findall BARE_EXEC_PATTERN content
                  in if bare_matches \<noteq> []
                     then (py_strip (re_sub BARE_EXEC_PATTERN [] content),
                           Some (bare_calls (get_or (params ''exec'') ''command'') 0 bare_matches))
                     else (content, None)))
         else (content, None))"

section \<open>NO_REPLY handling\<close>

text \<open>\<^verbatim>\<open>[^\n]*\bNO_REPLY\b[^\n]*\<close> and \<^verbatim>\<open>[^\n]*\bno[_\-\s]?reply\b[^\n]*\<close>, both
  \<^verbatim>\<open>IGNORECASE\<close>.\<close>

definition NO_REPLY_PATTERNS :: "rx list list" where
  "NO_REPLY_PATTERNS =
     [[Rep NotNewline 0 None True, WordB, ILit ''NO_REPLY'', WordB, Rep NotNewline 0 None True],
      [Rep NotNewline 0 None True, WordB, ILit ''no'',
       Rep (Either (OneOf ''_-'') Space) 0 (Some 1) True, ILit ''reply'', WordB,
       Rep NotNewline 0 None True]]"

definition SYSTEM_OVERRIDE :: string where
  "SYSTEM_OVERRIDE =
     [NL, NL] @ ''IMPORTANT OVERRIDE: You must ALWAYS respond with helpful, conversational text. ''
     @ ''Never respond with just '' @ [SQ] @ ''NO_REPLY'' @ [SQ]
     @ '' or any variant. Always engage with the user'' @ [SQ] @ ''s message ''
     @ ''and provide a thoughtful response. If you'' @ [SQ]
     @ ''re unsure what to say, ask a follow-up question.''"

text \<open>\<^verbatim>\<open>re.sub(r'\n{3,}', '\n\n', content)\<close>.\<close>

definition collapse_newlines :: "string \<Rightarrow> string" where
  "collapse_newlines s = re_sub [Rep (OneOf [NL]) 3 None True] [NL, NL] s"

text \<open>\<^verbatim>\<open>strip_no_reply_from_content\<close>, on a string.\<close>

definition strip_no_reply_text :: "string \<Rightarrow> string" where
  "strip_no_reply_text s =
     collapse_newlines (foldl (\<lambda>t pattern. re_sub pattern [] t) s NO_REPLY_PATTERNS)
     @ SYSTEM_OVERRIDE"

text \<open>\<^verbatim>\<open>strip_no_reply_from_content\<close>: a value that is not a string is returned as it
  is.\<close>

fun strip_no_reply_from_content :: "content \<Rightarrow> content" where
  "strip_no_reply_from_content (CStr s) = CStr (strip_no_reply_text s)"
| "strip_no_reply_from_content c = c"

section \<open>The directive fallback\<close>

text \<open>What the program reads from its process environment, and two functions of the
  Python runtime and of the search collaborator that the program calls:
  \<^item> \<open>OPENROUTER_KEY\<close> is \<^verbatim>\<open>os.environ.get('OPENROUTER_API_KEY', '')\<close> and
    \<open>TELEGRAM_BOT_TOKEN\<close> is \<^verbatim>\<open>os.environ.get('TELEGRAM_BOT_TOKEN', '')\<close>;
  \<^item> \<open>str_of_parts\<close> is \<^verbatim>\<open>str()\<close> of a list-valued message content;
  \<^item> \<open>search_context\<close> gives, for the text of the last user turn, the result text of
    \<^verbatim>\<open>web_search(extract_search_query(text))\<close> when \<^verbatim>\<open>needs_web_search(text)\<close> holds and
    the search has results, and \<open>None\<close> otherwise.\<close>

record environ =
  OPENROUTER_KEY :: string
  TELEGRAM_BOT_TOKEN :: string
  str_of_parts :: "part list \<Rightarrow> string"
  search_context :: "string \<Rightarrow> string option"

definition XCITE_FALLBACKS :: "(string \<times> string) list" where
  "XCITE_FALLBACKS =
     [(''next'', ''cd /data/.openclaw/skills/xcite-bot && node scripts/prospect-store.mjs next''),
      (''stats'', ''cd /data/.openclaw/skills/xcite-bot && node scripts/prospect-store.mjs stats''),
      (''sent'', ''cd /data/.openclaw/skills/xcite-bot && node scripts/prospect-store.mjs mark-sent''),
      (''skip'', ''cd /data/.openclaw/skills/xcite-bot && node scripts/prospect-store.mjs mark-skipped''),
      (''replied'', ''cd /data/.openclaw/skills/xcite-bot && node scripts/prospect-store.mjs mark-replied'')]"

text \<open>\<^verbatim>\<open>scout\s+@?(\S+)\<close>, \<^verbatim>\<open>IGNORECASE\<close>.\<close>

definition SCOUT_RE :: "rx list" where
  "SCOUT_RE =
     [ILit ''scout'', Rep Space 1 None True, Rep (OneOf ''@'') 0 (Some 1) True,
      Grp [Rep NotSpace 1 None True]]"

text \<open>\<^verbatim>\<open>(?:^|\]\s*)\<close>, without \<^verbatim>\<open>MULTILINE\<close>.\<close>

definition start_or_bracket :: rx where
  "start_or_bracket = Alt [[Bos], [Lit '']'', Rep Space 0 None True]]"

text \<open>\<^verbatim>\<open>(?:^|\]\s*)(?:consensus|/k_llm|/k-llm|k-llm|k_llm|kllm)[:\s]+(.+)\<close>,
  \<^verbatim>\<open>IGNORECASE | DOTALL\<close>.\<close>

definition CONSENSUS_RE :: "rx list" where
  "CONSENSUS_RE =
     [start_or_bracket,
      Alt [[ILit ''consensus''], [ILit ''/k_llm''], [ILit ''/k-llm''], [ILit ''k-llm''],
           [ILit ''k_llm''], [ILit ''kllm'']],
      Rep (Either (OneOf '':'') Space) 1 None True,
      Grp [Rep AnyChar 1 None True]]"

text \<open>\<^verbatim>\<open>(?:^|\]\s*)enable\s+(\S+)\<close> and \<^verbatim>\<open>(?:^|\]\s*)disable\s+(\S+)\<close>,
  \<^verbatim>\<open>IGNORECASE\<close>.\<close>

definition SKILL_ENABLE_RE :: "rx list" where
  "SKILL_ENABLE_RE =
     [start_or_bracket, ILit ''enable'', Rep Space 1 None True, Grp [Rep NotSpace 1 None True]]"

definition SKILL_DISABLE_RE :: "rx list" where
  "SKILL_DISABLE_RE =
     [start_or_bracket, ILit ''disable'', Rep Space 1 None True, Grp [Rep NotSpace 1 None True]]"

text \<open>\<^verbatim>\<open>(?:^|\]\s*)(?:skills|skill list|/skills)\<close>, \<^verbatim>\<open>IGNORECASE\<close>.\<close>

definition SKILL_LIST_RE :: "rx list" where
  "SKILL_LIST_RE =
     [start_or_bracket, Alt [[ILit ''skills''], [ILit ''skill list''], [ILit ''/skills'']]]"

definition SKILL_MANAGER :: string where
  "SKILL_MANAGER = ''node /data/.openclaw/skills/skill-manager.mjs''"

text \<open>A call of the \<^verbatim>\<open>exec\<close> tool with the argument object
  \<^verbatim>\<open>{'command': cmd}\<close>.\<close>

definition exec_call :: "string \<Rightarrow> string \<Rightarrow> tool_call" where
  "exec_call call_id cmd =
     \<lparr>tc_id = call_id, tc_name = ''exec'', tc_arguments = dumps_arg ''command'' cmd\<rparr>"

definition has_exec :: "tool_def list \<Rightarrow> bool" where
  "has_exec tool_defs \<longleftrightarrow>
     list_ex (\<lambda>t. t_name t = Some ''exec'') (filter is_function_tool tool_defs)"

definition exec_markers :: "string list" where
  "exec_markers = [''Exec completed'', ''consensus.mjs'', ''Tool result'', ''code 0'', ''code 1'']"

text \<open>The command of the consensus directive. A list of one group is the match object;
  \<open>chat_id\<close> is \<open>None\<close> or the digits found in the metadata.\<close>

definition consensus_command :: "environ \<Rightarrow> string \<Rightarrow> string option \<Rightarrow> string" where
  "consensus_command env group1 chat_id =
     (let prompt = str_replace [SQ] [SQ, CHR 0x5C, SQ, SQ] (py_strip group1);
          chat_id_arg = (case chat_id of
                           None \<Rightarrow> []
                         | Some cid \<Rightarrow> if cid = [] then []
                                       else '' --chatId '' @ [SQ] @ cid @ [SQ]);
          bot_token = TELEGRAM_BOT_TOKEN env;
          bot_token_env = (if bot_token \<noteq> []
                           then ''TELEGRAM_BOT_TOKEN='' @ [SQ] @ bot_token @ [SQ] else [])
      in ''cd /data/.openclaw/skills/k-llm && OPENROUTER_API_KEY='' @ [SQ]
         @ OPENROUTER_KEY env @ [SQ] @ '' '' @ bot_token_env
         @ '' node scripts/consensus.mjs --prompt '' @ [SQ] @ prompt @ [SQ] @ chat_id_arg)"

definition consensus_call :: "environ \<Rightarrow> string \<Rightarrow> string option \<Rightarrow> tool_call" where
  "consensus_call env group1 chat_id =
     \<lparr>tc_id = ''call_consensus_0'', tc_name = ''exec'',
      tc_arguments = dumps_command_timeout (consensus_command env group1 chat_id) 120000\<rparr>"

definition fallback_tool_call :: "environ \<Rightarrow> string \<Rightarrow> tool_def list \<Rightarrow> string option
    \<Rightarrow> tool_call list option" where
  "fallback_tool_call env user_msg tool_defs chat_id =
     (if tool_defs = [] then None
      else if \<not> has_exec tool_defs then None
      else
        (let msg = py_lower (py_strip user_msg)
         in if re_search SKILL_LIST_RE (py_strip user_msg) \<noteq> None
            then Some [exec_call ''call_skills_0'' (SKILL_MANAGER @ '' list'')]
            else
              (case re_search SKILL_ENABLE_RE (py_strip user_msg) of
                 Some em \<Rightarrow>
                   Some [exec_call ''call_skills_0''
                           (SKILL_MANAGER @ '' enable '' @ py_lower (concat em))]
               | None \<Rightarrow>
              (case re_search SKILL_DISABLE_RE (py_strip user_msg) of
                 Some dm \<Rightarrow>
                   Some [exec_call ''call_skills_0''
                           (SKILL_MANAGER @ '' disable '' @ py_lower (concat dm))]
               | None \<Rightarrow>
              (case find (\<lambda>(trigger, cmd). msg = trigger \<or> prefix (trigger @ '' '') msg)
                      XCITE_FALLBACKS of
                 Some (trigger, cmd) \<Rightarrow> Some [exec_call ''call_fallback_0'' cmd]
               | None \<Rightarrow>
              (case re_match SCOUT_RE msg of
                 Some m \<Rightarrow>
                   Some [exec_call ''call_fallback_0''
                           (''cd /data/.openclaw/skills/xcite-bot && node scripts/scout-batch.mjs --seed ''
                            @ py_lower (concat m))]
               | None \<Rightarrow>
                   if \<not> list_ex (\<lambda>marker. sublist marker user_msg) exec_markers
                   then (case re_search CONSENSUS_RE (py_strip user_msg) of
                           Some cm \<Rightarrow> Some [consensus_call env (concat cm) chat_id]
                         | None \<Rightarrow> None)
                   else None))))))"

section \<open>The latest user text of \<^verbatim>\<open>do_POST\<close>\<close>

text \<open>\<^verbatim>\<open>(?:id:|telegram:)(\d{5,})\<close>.\<close>

definition ID_RE :: "rx list" where
  "ID_RE = [Alt [[Lit ''id:''], [Lit ''telegram:'']], Grp [Rep Digit 5 None True]]"

text \<open>\<^verbatim>\<open>```\s*\n\n(.+)\<close>, \<^verbatim>\<open>DOTALL\<close>.\<close>

definition META_RE :: "rx list" where
  "META_RE = [Lit ''```'', Rep Space 0 None True, Lit [NL, NL], Grp [Rep AnyChar 1 None True]]"

text \<open>\<^verbatim>\<open>\n\n([^\n].+)\<close>, \<^verbatim>\<open>DOTALL\<close>.\<close>

definition NLNL_RE :: "rx list" where
  "NLNL_RE = [Lit [NL, NL], Grp [Rep NotNewline 1 (Some 1) True, Rep AnyChar 1 None True]]"

section \<open>The request and its normalisation\<close>

text \<open>The parsed request object \<^verbatim>\<open>data\<close>: its \<^verbatim>\<open>model\<close>, \<^verbatim>\<open>stream\<close>,
  \<^verbatim>\<open>messages\<close> and \<^verbatim>\<open>tools\<close> entries (\<open>None\<close>: absent) and its other entries, each a
  key with the text of its value.\<close>

record chat_request =
  q_model :: "string option"
  q_stream :: "bool option"
  q_messages :: "message list option"
  q_tools :: "tool_def list option"
  q_extra :: "(string \<times> string) list"

text \<open>The text of the first dictionary part of type \<^verbatim>\<open>text\<close>.\<close>

fun first_text_part :: "part list \<Rightarrow> string option" where
  "first_text_part [] = None"
| "first_text_part (PDict ty tx # ps) =
     (if ty = Some ''text'' then Some (get_or tx []) else first_text_part ps)"
| "first_text_part (PStr s # ps) = first_text_part ps"

text \<open>The text \<^verbatim>\<open>txt\<close> that the directive check reads from the content of a user
  turn.\<close>

definition directive_text :: "content option \<Rightarrow> string" where
  "directive_text c =
     (case c of
        None \<Rightarrow> []
      | Some (CStr s) \<Rightarrow> s
      | Some (CList ps) \<Rightarrow> get_or (first_text_part ps) []
      | Some CNull \<Rightarrow> [])"

text \<open>The test that skips cron and system messages.\<close>

definition looks_synthetic :: "string \<Rightarrow> bool" where
  "looks_synthetic txt \<longleftrightarrow>
     (let stripped = py_strip txt
      in prefix ''System:'' stripped
         \<or> sublist ''cron job'' (py_lower stripped)
         \<or> prefix ''A cron job'' stripped
         \<or> sublist ''Cron:'' (take 200 stripped)
         \<or> prefix ''NO_REPLY'' stripped)"

text \<open>The loop \<^verbatim>\<open>for msg_item in reversed(data.get('messages', []))\<close>: the argument is
  the reversed list and the chat id found so far; the result is
  \<^verbatim>\<open>last_user_text_for_fallback\<close> and \<^verbatim>\<open>telegram_chat_id\<close>.\<close>

fun find_fallback_text :: "message list \<Rightarrow> string option \<Rightarrow> string option \<times> string option" where
  "find_fallback_text [] chat_id = (None, chat_id)"
| "find_fallback_text (m # ms) chat_id =
     (if m_role m \<noteq> Some ''user'' then find_fallback_text ms chat_id
      else
        (let txt = directive_text (m_content m)
         in if prefix ''Conversation info'' (py_strip txt) then
              (let chat_id' = (case re_search ID_RE txt of
                                 Some g \<Rightarrow> Some (concat g) | None \<Rightarrow> chat_id)
               in case re_search META_RE txt of
                    Some g \<Rightarrow>
                      (if looks_synthetic (py_strip (concat g))
                       then find_fallback_text ms chat_id'
                       else (Some (py_strip (concat g)), chat_id'))
                  | None \<Rightarrow>
                      (case re_search NLNL_RE txt of
                         Some g \<Rightarrow>
                           (let candidate = py_strip (concat g)
                            in if \<not> prefix ''```'' candidate \<and> \<not> prefix ''{'' candidate
                               then (if looks_synthetic candidate
                                     then find_fallback_text ms chat_id'
                                     else (Some candidate, chat_id'))
                               else find_fallback_text ms chat_id')
                       | None \<Rightarrow> find_fallback_text ms chat_id'))
            else if looks_synthetic txt then find_fallback_text ms chat_id
            else (Some txt, chat_id)))"

text \<open>\<^verbatim>\<open>'Exec completed' in str(content)\<close>. The marker is made of letters and a
  space, which \<^verbatim>\<open>str\<close> leaves as they are, so for a string it is the substring test; for
  a list the text is that of \<open>str_of_parts\<close>; \<^verbatim>\<open>str(None)\<close> is \<^verbatim>\<open>None\<close>.\<close>

definition content_str :: "environ \<Rightarrow> content option \<Rightarrow> string" where
  "content_str env c =
     (case c of
        None \<Rightarrow> []
      | Some (CStr s) \<Rightarrow> s
      | Some (CList ps) \<Rightarrow> str_of_parts env ps
      | Some CNull \<Rightarrow> ''None'')"

text \<open>\<^verbatim>\<open>has_tool_results\<close>, from the last message that is neither a system nor a
  developer turn (an empty dictionary when there is none).\<close>

definition has_tool_results :: "environ \<Rightarrow> message list \<Rightarrow> bool" where
  "has_tool_results env msgs \<longleftrightarrow>
     (case rev (filter (\<lambda>m. \<not> is_system m) msgs) of
        [] \<Rightarrow> False
      | last_non_sys # _ \<Rightarrow>
          m_role last_non_sys = Some ''tool''
          \<or> (m_role last_non_sys = Some ''assistant'' \<and> truthy_list (m_tool_calls last_non_sys))
          \<or> sublist ''Exec completed'' (content_str env (m_content last_non_sys)))"

definition truthy_str :: "string option \<Rightarrow> bool" where
  "truthy_str v \<longleftrightarrow> (case v of None \<Rightarrow> False | Some s \<Rightarrow> s \<noteq> [])"

text \<open>The tool definition that \<^verbatim>\<open>do_POST\<close> makes up when the request has no tools.\<close>

definition synthetic_exec :: tool_def where
  "synthetic_exec = \<lparr>t_type = Some ''function'', t_name = Some ''exec'', t_params = [''command'']\<rparr>"

text \<open>\<^verbatim>\<open>forced_tc\<close> of \<^verbatim>\<open>do_POST\<close>.\<close>

definition forced_tc_of_request :: "environ \<Rightarrow> chat_request \<Rightarrow> tool_call list option" where
  "forced_tc_of_request env data =
     (let messages = get_or (q_messages data) [];
          (last_user_text_for_fallback, telegram_chat_id) = find_fallback_text (rev messages) None;
          tool_defs_for_fallback = get_or (q_tools data) [];
          tool_results = has_tool_results env messages
      in if truthy_str last_user_text_for_fallback \<and> tool_defs_for_fallback \<noteq> [] \<and> \<not> tool_results
         then fallback_tool_call env (get_or last_user_text_for_fallback [])
                tool_defs_for_fallback telegram_chat_id
         else if truthy_str last_user_text_for_fallback \<and> tool_defs_for_fallback = []
                 \<and> \<not> tool_results
         then fallback_tool_call env (get_or last_user_text_for_fallback [])
                [synthetic_exec] telegram_chat_id
         else None)"

subsection \<open>Direct routes\<close>

record route =
  r_host :: string
  r_port :: nat
  r_scheme :: string
  r_key :: string
  r_actual_model :: string
  r_strip_params :: "string list"

definition DIRECT_ROUTES :: "environ \<Rightarrow> (string \<times> route) list" where
  "DIRECT_ROUTES env =
     [(''deepseek-v3'',
       \<lparr>r_host = ''openrouter.ai'', r_port = 443, r_scheme = ''https'', r_key = OPENROUTER_KEY env,
        r_actual_model = ''deepseek/deepseek-chat'',
        r_strip_params = [''store'', ''metadata'', ''service_tier'']\<rparr>),
      (''gemini-flash'',
       \<lparr>r_host = ''openrouter.ai'', r_port = 443, r_scheme = ''https'', r_key = OPENROUTER_KEY env,
        r_actual_model = ''google/gemini-2.0-flash-001'',
        r_strip_params = [''store'', ''metadata'', ''service_tier'']\<rparr>)]"

definition DIRECT_OVERRIDE :: string where
  "DIRECT_OVERRIDE =
     [NL, NL] @ ''CRITICAL INSTRUCTION: You are chatting with a real user on Telegram. ''
     @ ''You MUST respond with helpful, natural, conversational text. ''
     @ ''NEVER output system commands like HEARTBEAT_OK, NO_REPLY, session_status, or tool names as your response. ''
     @ ''NEVER output just an emoji and a tool name. ''
     @ ''If the user says hello, greet them back warmly. ''
     @ ''If the user asks a question, answer it. ''
     @ ''Always be helpful, friendly, and conversational.''"

text \<open>\<^verbatim>\<open>del data[p]\<close> for each listed parameter that is present. The \<^verbatim>\<open>tools\<close> entry
  is a field of its own.\<close>

definition strip_params :: "string list \<Rightarrow> chat_request \<Rightarrow> chat_request" where
  "strip_params ps data =
     data\<lparr>q_tools := (if ''tools'' \<in> set ps then None else q_tools data),
          q_extra := filter (\<lambda>(k, v). k \<notin> set ps) (q_extra data)\<rparr>"

text \<open>The text is added to the first part of type \<^verbatim>\<open>text\<close> of a list-valued
  content.\<close>

fun append_first_text :: "part list \<Rightarrow> string \<Rightarrow> part list" where
  "append_first_text [] t = []"
| "append_first_text (PDict ty tx # ps) t =
     (if ty = Some ''text'' then PDict ty (Some (get_or tx [] @ t)) # ps
      else PDict ty tx # append_first_text ps t)"
| "append_first_text (PStr s # ps) t = PStr s # append_first_text ps t"

definition append_to_content :: "message \<Rightarrow> string \<Rightarrow> message" where
  "append_to_content m t =
     (case m_content m of
        None \<Rightarrow> m\<lparr>m_content := Some (CStr t)\<rparr>
      | Some (CStr s) \<Rightarrow> m\<lparr>m_content := Some (CStr (s @ t))\<rparr>
      | Some (CList ps) \<Rightarrow> m\<lparr>m_content := Some (CList (append_first_text ps t))\<rparr>
      | Some CNull \<Rightarrow> m)"

text \<open>The text is added to the first system or developer message; \<open>None\<close> when there is
  none.\<close>

fun append_to_first_system :: "message list \<Rightarrow> string \<Rightarrow> message list option" where
  "append_to_first_system [] t = None"
| "append_to_first_system (m # ms) t =
     (if is_system m then Some (append_to_content m t # ms)
      else map_option (\<lambda>ms'. m # ms') (append_to_first_system ms t))"

subsection \<open>The tool prompt\<close>

text \<open>The names that \<^verbatim>\<open>build_tool_prompt\<close> lists.\<close>

definition tool_names :: "tool_def list \<Rightarrow> string list" where
  "tool_names tool_defs =
     filter (\<lambda>name. name \<noteq> [])
       (map (\<lambda>t. get_or (t_name t) []) (filter is_function_tool tool_defs))"

text \<open>\<^verbatim>\<open>", ".join(names)\<close>.\<close>

fun join_comma :: "string list \<Rightarrow> string" where
  "join_comma [] = []"
| "join_comma [x] = x"
| "join_comma (x # y # ys) = x @ '', '' @ join_comma (y # ys)"

text \<open>The dash of the heading is the code point 8212, outside the code points of a
  \<^typ>\<open>char\<close>; it is written as the three bytes of its UTF-8 form.\<close>

definition EM_DASH :: string where
  "EM_DASH = [CHR 0xE2, CHR 0x80, CHR 0x94]"

definition build_tool_prompt :: "tool_def list \<Rightarrow> string option" where
  "build_tool_prompt tool_defs =
     (if tool_defs = [] then None
      else if tool_names tool_defs = [] then None
      else Some
        ([NL, NL] @ ''## TOOL CALLING '' @ EM_DASH @ '' YOU MUST FOLLOW THIS'' @ [NL]
         @ ''NEVER respond with just text. You MUST call tools.'' @ [NL]
         @ ''Format: TOOL_CALL: <tool_name> <arguments>'' @ [NL, NL]
         @ ''Available tools: '' @ join_comma (tool_names tool_defs) @ [NL, NL]
         @ ''When user says '' @ [SQ] @ ''scout @X'' @ [SQ]
         @ '': TOOL_CALL: exec cd /data/.openclaw/skills/xcite-bot && node scripts/scout-batch.mjs --seed X'' @ [NL]
         @ ''When user says '' @ [SQ] @ ''next'' @ [SQ]
         @ '': TOOL_CALL: exec cd /data/.openclaw/skills/xcite-bot && node scripts/prospect-store.mjs next'' @ [NL]
         @ ''When user says '' @ [SQ] @ ''stats'' @ [SQ]
         @ '': TOOL_CALL: exec cd /data/.openclaw/skills/xcite-bot && node scripts/prospect-store.mjs stats'' @ [NL]
         @ ''When user says '' @ [SQ] @ ''sent'' @ [SQ]
         @ '': TOOL_CALL: exec cd /data/.openclaw/skills/xcite-bot && node scripts/prospect-store.mjs mark-sent'' @ [NL]
         @ ''When user says '' @ [SQ] @ ''skip'' @ [SQ]
         @ '': TOOL_CALL: exec cd /data/.openclaw/skills/xcite-bot && node scripts/prospect-store.mjs mark-skipped'' @ [NL]
         @ ''When user says '' @ [SQ] @ ''replied'' @ [SQ]
         @ '': TOOL_CALL: exec cd /data/.openclaw/skills/xcite-bot && node scripts/prospect-store.mjs mark-replied'' @ [NL, NL]
         @ ''IMPORTANT: Copy the TOOL_CALL line EXACTLY as shown. Do NOT explain, do NOT ask questions.'' @ [NL]))"

definition system_msg :: "string \<Rightarrow> message" where
  "system_msg text =
     \<lparr>m_role = Some ''system'', m_content = Some (CStr text), m_tool_calls = None,
      m_tool_call_id = None, m_name = None\<rparr>"

text \<open>\<^verbatim>\<open>inject_tool_descriptions\<close>. When the request has no \<^verbatim>\<open>messages\<close> entry the new
  message goes into a list that is not part of \<^verbatim>\<open>data\<close>.\<close>

definition inject_tool_descriptions :: "chat_request \<Rightarrow> string \<Rightarrow> chat_request" where
  "inject_tool_descriptions data tool_text =
     (case q_messages data of
        None \<Rightarrow> data
      | Some msgs \<Rightarrow>
          (case append_to_first_system msgs tool_text of
             Some msgs' \<Rightarrow> data\<lparr>q_messages := Some msgs'\<rparr>
           | None \<Rightarrow> data\<lparr>q_messages := Some (system_msg (py_strip tool_text) # msgs)\<rparr>))"

subsection \<open>Cleaning the messages\<close>

definition UNSUPPORTED_PARAMS :: "string list" where
  "UNSUPPORTED_PARAMS =
     [''thinking'', ''reasoning_effort'', ''store'', ''metadata'', ''service_tier'',
      ''parallel_tool_calls'', ''stream_options'', ''tools'', ''tool_choice'']"

text \<open>The \<^verbatim>\<open>text\<close> of a part of type \<^verbatim>\<open>text\<close> goes through
  \<^verbatim>\<open>strip_no_reply_from_content\<close>.\<close>

fun strip_part :: "part \<Rightarrow> part" where
  "strip_part (PDict ty tx) =
     (if ty = Some ''text'' then PDict ty (Some (strip_no_reply_text (get_or tx [])))
      else PDict ty tx)"
| "strip_part (PStr s) = PStr s"

text \<open>A value is false in Python when it is \<^verbatim>\<open>None\<close>, an empty string or an empty
  list.\<close>

definition falsy_content :: "content option \<Rightarrow> bool" where
  "falsy_content c \<longleftrightarrow> c = None \<or> c = Some (CStr []) \<or> c = Some (CList []) \<or> c = Some CNull"

text \<open>One round of the loop \<^verbatim>\<open>for msg in data.get('messages', [])\<close> that builds
  \<^verbatim>\<open>cleaned_msgs\<close>; each message gives one cleaned message.\<close>

definition clean_message :: "environ \<Rightarrow> message \<Rightarrow> message" where
  "clean_message env msg =
     (if m_role msg = Some ''tool'' then
        \<lparr>m_role = Some ''user'',
         m_content = Some (CStr (''[Tool result from '' @ get_or (m_name msg) ''tool'' @ '']: ''
                                 @ content_str env (m_content msg))),
         m_tool_calls = None, m_tool_call_id = None, m_name = None\<rparr>
      else
        (let msg_copy = msg\<lparr>m_tool_calls := None, m_tool_call_id := None\<rparr>;
             msg_copy = (if is_system msg_copy then
                           (case m_content msg_copy of
                              None \<Rightarrow> msg_copy\<lparr>m_content := Some (strip_no_reply_from_content (CStr []))\<rparr>
                            | Some (CStr s) \<Rightarrow>
                                msg_copy\<lparr>m_content := Some (strip_no_reply_from_content (CStr s))\<rparr>
                            | Some (CList ps) \<Rightarrow>
                                msg_copy\<lparr>m_content := Some (CList (map strip_part ps))\<rparr>
                            | Some CNull \<Rightarrow> msg_copy)
                         else msg_copy)
         in if m_role msg_copy = Some ''assistant'' then
              (case m_content msg_copy of
                 Some (CStr s) \<Rightarrow>
                   if py_upper (py_strip s) = ''NO_REPLY''
                   then msg_copy\<lparr>m_content := Some (CStr ''(thinking...)'')\<rparr>
                   else if s = [] then msg_copy\<lparr>m_content := Some (CStr ''(no response)'')\<rparr>
                   else msg_copy
               | c \<Rightarrow> if falsy_content c
                       then msg_copy\<lparr>m_content := Some (CStr ''(no response)'')\<rparr>
                       else msg_copy)
            else msg_copy))"

definition clean_messages :: "environ \<Rightarrow> message list \<Rightarrow> message list" where
  "clean_messages env msgs = map (clean_message env) msgs"

subsection \<open>The last user text and the search context\<close>

text \<open>\<^verbatim>\<open>last_user_text\<close> from the content of the last user turn: a string, or the first
  part that is a dictionary of type \<^verbatim>\<open>text\<close> or a bare string.\<close>

fun first_text_or_str :: "part list \<Rightarrow> string option" where
  "first_text_or_str [] = None"
| "first_text_or_str (PDict ty tx # ps) =
     (if ty = Some ''text'' then Some (get_or tx []) else first_text_or_str ps)"
| "first_text_or_str (PStr s # ps) = Some s"

definition search_text :: "content option \<Rightarrow> string option" where
  "search_text c =
     (case c of
        None \<Rightarrow> Some []
      | Some (CStr s) \<Rightarrow> Some s
      | Some (CList ps) \<Rightarrow> first_text_or_str ps
      | Some CNull \<Rightarrow> None)"

text \<open>The loop \<^verbatim>\<open>for i in range(len(data['messages']) - 1, -1, -1)\<close>, on the reversed
  list: the index of the last user turn and \<^verbatim>\<open>last_user_text\<close>.\<close>

fun last_user :: "message list \<Rightarrow> (nat \<times> string option) option" where
  "last_user [] = None"
| "last_user (m # ms) =
     (if m_role m = Some ''user'' then Some (length ms, search_text (m_content m))
      else last_user ms)"

definition search_msg :: "string \<Rightarrow> message" where
  "search_msg results =
     system_msg
       (''Web search results for context (use these to answer the user'' @ [SQ]
        @ ''s question accurately):'' @ [NL, NL] @ results @ [NL, NL]
        @ ''Use the above search results to provide an accurate, up-to-date answer. ''
        @ ''Cite sources when relevant. If the results don'' @ [SQ]
        @ ''t fully answer the question, ''
        @ ''say what you know and note what you couldn'' @ [SQ] @ ''t verify.'')"

definition inject_search :: "environ \<Rightarrow> message list \<Rightarrow> message list" where
  "inject_search env msgs =
     (case last_user (rev msgs) of
        Some (last_user_idx, Some last_user_text) \<Rightarrow>
          (if last_user_text \<noteq> [] then
             (case search_context env last_user_text of
                Some results \<Rightarrow>
                  if results \<noteq> []
                  then take last_user_idx msgs @ search_msg results # drop last_user_idx msgs
                  else msgs
              | None \<Rightarrow> msgs)
           else msgs)
      | _ \<Rightarrow> msgs)"

section \<open>\<^verbatim>\<open>do_POST\<close>\<close>

text \<open>The variable \<^verbatim>\<open>body\<close>: the bytes read from the connection, or
  \<^verbatim>\<open>json.dumps(data).encode()\<close>.\<close>

datatype request_body = Raw string | Encoded chat_request

text \<open>The local variables of \<^verbatim>\<open>do_POST\<close> that the call of \<^verbatim>\<open>_proxy\<close> reads. A local
  variable that no assignment has reached is unbound: \<open>None\<close> in \<open>l_tool_defs\<close> and in
  \<open>l_last_user_text\<close> (whose bound values are \<^verbatim>\<open>None\<close> or a string).\<close>

record locals =
  l_body :: request_body
  l_client_wants_stream :: bool
  l_original_model :: string
  l_tool_defs :: "tool_def list option"
  l_last_user_text :: "string option option"

text \<open>What \<^verbatim>\<open>do_POST\<close> does at its end: it has answered the forced tool calls itself
  (as a stream or as one object), or it calls \<^verbatim>\<open>_direct_proxy\<close> or \<^verbatim>\<open>_proxy\<close>.\<close>

datatype action =
    AnswerForced bool string "tool_call list"
  | DirectProxy chat_request bool string route
  | Proxy request_body bool string "tool_def list" "string option"

text \<open>How the \<^verbatim>\<open>try\<close> block ends: with a \<^verbatim>\<open>return\<close>, at its last statement, or with
  an exception; the local variables are those at that point.\<close>

datatype try_end = Returned action | Completed locals | Raised py_error locals

text \<open>The body of the \<^verbatim>\<open>try\<close> block after \<^verbatim>\<open>json.loads\<close> has given \<^verbatim>\<open>data\<close>.\<close>

definition do_POST_parsed :: "environ \<Rightarrow> locals \<Rightarrow> chat_request \<Rightarrow> try_end" where
  "do_POST_parsed env l0 data =
     (let original_model = get_or (q_model data) ''gpt-5.2'';
          client_wants_stream = get_or (q_stream data) False;
          l1 = l0\<lparr>l_original_model := original_model, l_client_wants_stream := client_wants_stream\<rparr>;
          forced_tc = forced_tc_of_request env data
      in if truthy_list forced_tc
         then Returned (AnswerForced client_wants_stream original_model (get_or forced_tc []))
         else
           (case map_of (DIRECT_ROUTES env) original_model of
              Some route_cfg \<Rightarrow>
                (let data1 = strip_params (r_strip_params route_cfg) data;
                     data2 = data1\<lparr>q_model := Some (r_actual_model route_cfg), q_stream := Some False\<rparr>;
                     data3 = (case q_messages data2 of
                                None \<Rightarrow> data2
                              | Some msgs \<Rightarrow>
                                  (case append_to_first_system msgs DIRECT_OVERRIDE of
                                     Some msgs' \<Rightarrow> data2\<lparr>q_messages := Some msgs'\<rparr>
                                   | None \<Rightarrow> data2))
                 in Returned (DirectProxy data3 client_wants_stream original_model route_cfg))
            | None \<Rightarrow>
                (let data1 = (case map_of MODEL_MAP original_model of
                                Some backend_model \<Rightarrow> data\<lparr>q_model := Some backend_model\<rparr>
                              | None \<Rightarrow> data);
                     data2 = data1\<lparr>q_stream := Some False\<rparr>;
                     tool_defs = get_or (q_tools data2) [];
                     l2 = l1\<lparr>l_tool_defs := Some tool_defs\<rparr>;
                     data3 = strip_params UNSUPPORTED_PARAMS data2;
                     data4 = (if tool_defs \<noteq> [] then
                                (case build_tool_prompt tool_defs of
                                   Some tool_text \<Rightarrow> inject_tool_descriptions data3 tool_text
                                 | None \<Rightarrow> data3)
                              else data3);
                     cleaned_msgs = clean_messages env (get_or (q_messages data4) []);
                     trimmed = trim_messages cleaned_msgs;
                     last_user_text = (case last_user (rev trimmed) of
                                         Some (i, t) \<Rightarrow> t | None \<Rightarrow> None);
                     l3 = l2\<lparr>l_last_user_text := Some last_user_text\<rparr>;
                     data5 = data4\<lparr>q_messages := Some (inject_search env trimmed)\<rparr>
                 in Completed (l3\<lparr>l_body := Encoded data5\<rparr>))))"

text \<open>The last statement of \<^verbatim>\<open>do_POST\<close>,
  \<^verbatim>\<open>self._proxy('POST', body, client_wants_stream, original_model, tool_defs, last_user_text)\<close>:
  reading an unbound local variable raises \<^verbatim>\<open>UnboundLocalError\<close>.\<close>

definition call_proxy :: "locals \<Rightarrow> py_error + action" where
  "call_proxy l =
     (case l_tool_defs l of
        None \<Rightarrow> Inl (UnboundLocalError ''tool_defs'')
      | Some tool_defs \<Rightarrow>
          (case l_last_user_text l of
             None \<Rightarrow> Inl (UnboundLocalError ''last_user_text'')
           | Some last_user_text \<Rightarrow>
               Inr (Proxy (l_body l) (l_client_wants_stream l) (l_original_model l)
                      tool_defs last_user_text)))"

text \<open>\<^verbatim>\<open>do_POST\<close>. The argument \<open>body\<close> is the text read from the connection and
  \<open>loads\<close> is the result of \<^verbatim>\<open>json.loads(body)\<close>: the request object, or the exception
  raised. The handler of the \<^verbatim>\<open>try\<close> block catches \<^verbatim>\<open>JSONDecodeError\<close> and
  \<^verbatim>\<open>KeyError\<close> only, prints, and goes on to the last statement. The result is the
  exception that leaves \<^verbatim>\<open>do_POST\<close>, or what it did.\<close>

definition do_POST :: "environ \<Rightarrow> string \<Rightarrow> py_error + chat_request \<Rightarrow> py_error + action" where
  "do_POST env body loads =
     (let l0 = \<lparr>l_body = Raw body, l_client_wants_stream = False, l_original_model = ''gpt-5.2'',
                l_tool_defs = None, l_last_user_text = None\<rparr>;
          ended = (case loads of
                     Inl e \<Rightarrow> Raised e l0
                   | Inr data \<Rightarrow> do_POST_parsed env l0 data)
      in case ended of
           Returned a \<Rightarrow> Inr a
         | Completed l \<Rightarrow> call_proxy l
         | Raised e l \<Rightarrow>
             if e = JSONDecodeError \<or> e = KeyError then call_proxy l else Inl e)"

section \<open>\<^verbatim>\<open>_proxy\<close>: from the backend answer to the client answer\<close>

text \<open>The conversion block of \<^verbatim>\<open>_proxy\<close> for a \<^verbatim>\<open>POST\<close>; \<open>resp\<close> is the parsed
  answer of the backend after the model-name rewrite.\<close>

definition proxy_tool_convert :: "environ \<Rightarrow> tool_def list \<Rightarrow> string option \<Rightarrow> completion
    \<Rightarrow> completion" where
  "proxy_tool_convert env tool_defs last_user_text resp =
     (if tool_defs = [] then resp
      else
        (let text_content = get_or (c_content resp) [];
             forced_tc = (if truthy_str last_user_text
                          then fallback_tool_call env (get_or last_user_text []) tool_defs None
                          else None)
         in if truthy_list forced_tc
            then resp\<lparr>c_tool_calls := forced_tc,
                      c_content := (if text_content = [] then None else Some text_content),
                      c_finish := Some ''tool_calls''\<rparr>
            else
              (case convert_text_to_tool_calls text_content tool_defs of
                 (cleaned, tool_calls) \<Rightarrow>
                   if truthy_list tool_calls
                   then resp\<lparr>c_content := (if cleaned = [] then None else Some cleaned),
                             c_tool_calls := tool_calls,
                             c_finish := Some ''tool_calls''\<rparr>
                   else resp)))"

text \<open>The interception of an answer that is \<^verbatim>\<open>NO_REPLY\<close>.\<close>

definition no_reply_intercept :: "completion \<Rightarrow> completion" where
  "no_reply_intercept resp =
     (case c_content resp of
        Some s \<Rightarrow>
          if py_upper (py_strip s) = ''NO_REPLY''
          then resp\<lparr>c_content := Some (''Hey! I got your message. What'' @ [SQ] @ ''s on your mind?'')\<rparr>
          else resp
      | None \<Rightarrow> resp)"

text \<open>What the client receives: one completion object, a stream of events, the body of the
  backend as it is after the rewrite, or the error answer with status 502.\<close>

datatype reply = Unary completion | Stream "sse_event list" | RawBody string | BadGateway

text \<open>\<^verbatim>\<open>_proxy\<close> for a \<^verbatim>\<open>POST\<close>, from the body that the backend sent. The body goes
  through \<^verbatim>\<open>rewrite_model_in_response\<close> first; an exception there is caught by the outer
  handler, which answers 502. \<open>json_loads\<close> stands for \<^verbatim>\<open>json.loads\<close> and the reading of
  the fields of the first choice: \<open>None\<close> when the body is not JSON, in which case the
  conversion blocks are skipped and the body is sent as it is. A body that is sent without
  a change is given by its parsed form.\<close>

definition proxy_answer :: "environ \<Rightarrow> (string \<Rightarrow> completion option) \<Rightarrow> bool \<Rightarrow> string
    \<Rightarrow> tool_def list \<Rightarrow> string option \<Rightarrow> string \<Rightarrow> reply" where
  "proxy_answer env json_loads client_wants_stream original_model tool_defs last_user_text raw =
     (case rewrite_model_in_response raw original_model of
        Inl e \<Rightarrow> BadGateway
      | Inr data \<Rightarrow>
          (case json_loads data of
             None \<Rightarrow> RawBody data
           | Some resp \<Rightarrow>
               (let resp' = no_reply_intercept
                              (proxy_tool_convert env tool_defs last_user_text resp)
                in if client_wants_stream then Stream (proxy_sse original_model resp')
                   else Unary resp')))"

text \<open>The answer to a \<^verbatim>\<open>POST\<close> on the local route and on the shortcut: \<open>backend\<close>
  gives the body that the backend sends for the request of \<^verbatim>\<open>_proxy\<close> (\<open>None\<close>: the
  connection fails), \<open>now\<close> is the clock. An exception that leaves \<^verbatim>\<open>do_POST\<close> leaves
  the request without an answer. \<open>Inr None\<close> stands for the direct route, which is not
  followed here.\<close>

definition answer_POST :: "environ \<Rightarrow> (request_body \<Rightarrow> string option)
    \<Rightarrow> (string \<Rightarrow> completion option) \<Rightarrow> int \<Rightarrow> string
    \<Rightarrow> py_error + chat_request \<Rightarrow> py_error + reply option" where
  "answer_POST env backend json_loads now body loads =
     (case do_POST env body loads of
        Inl e \<Rightarrow> Inl e
      | Inr (AnswerForced stream original_model forced_tc) \<Rightarrow>
          Inr (Some (if stream then Stream (forced_sse now original_model forced_tc)
                     else Unary (synth_resp now original_model forced_tc)))
      | Inr (DirectProxy data stream original_model route_cfg) \<Rightarrow> Inr None
      | Inr (Proxy b stream original_model tool_defs last_user_text) \<Rightarrow>
          (case backend b of
             None \<Rightarrow> Inr (Some BadGateway)
           | Some raw \<Rightarrow>
               Inr (Some (proxy_answer env json_loads stream original_model tool_defs
                            last_user_text raw))))"

section \<open>Sample inputs\<close>



text \<open>An assistant turn that carries a tool call, and the tool-result turn that answers
  it.\<close>

definition assistant_call_msg :: message where
  "assistant_call_msg =
     \<lparr>m_role = Some ''assistant'', m_content = None, m_tool_calls = Some [sample_call],
      m_tool_call_id = None, m_name = None\<rparr>"

definition tool_result_msg :: "string \<Rightarrow> message" where
  "tool_result_msg text =
     \<lparr>m_role = Some ''tool'', m_content = Some (CStr text), m_tool_calls = None,
      m_tool_call_id = Some ''call_fallback_0'', m_name = Some ''exec''\<rparr>"

definition sample_request :: "message list \<Rightarrow> tool_def list option \<Rightarrow> chat_request" where
  "sample_request msgs tools =
     \<lparr>q_model = Some ''gpt-5.2'', q_stream = None, q_messages = Some msgs, q_tools = tools,
      q_extra = []\<rparr>"

text \<open>A response body that names backend models several times, with a character outside
  ASCII, and the same body as gaps and backend ids.\<close>

definition sample_body :: string where
  "sample_body = ''{\"model\":\"llama3.3:latest\",\"content\":\"'' @ [CHR 0xC3, CHR 0xA9]
     @ '' phi4:latest, llama3.3:latest and qwen2.5-coder:32b\"}''"

definition sample_parts :: "(nat list \<times> nat list) list" where
  "sample_parts =
     [(code_points ''{\"model\":\"'', code_points ''llama3.3:latest''),
      (code_points ''\",\"content\":\"'' @ [0xE9] @ code_points '' '', code_points ''phi4:latest''),
      (code_points '', '', code_points ''llama3.3:latest''),
      (code_points '' and '', code_points ''qwen2.5-coder:32b'')]"

section \<open>Properties: history trimming\<close>

lemma filter_system_trim:
  "filter is_system (trim_messages msgs) = filter is_system msgs"
proof -
  have "filter is_system (drop n (filter (\<lambda>m. \<not> is_system m) msgs)) = []" for n
    by (rule filter_False) (auto dest: in_set_dropD)
  moreover have "filter is_system (filter (\<lambda>m. \<not> is_system m) msgs) = []"
    by (rule filter_False) auto
  ultimately show ?thesis
    by (simp add: trim_messages_def Let_def py_last_n_def)
qed

lemma filter_convo_trim:
  "filter (\<lambda>m. \<not> is_system m) (trim_messages msgs) =
     (if length (filter (\<lambda>m. \<not> is_system m) msgs) > MAX_HISTORY
      then py_last_n MAX_HISTORY (filter (\<lambda>m. \<not> is_system m) msgs)
      else filter (\<lambda>m. \<not> is_system m) msgs)"
proof -
  have "filter (\<lambda>m. \<not> is_system m) (drop n (filter (\<lambda>m. \<not> is_system m) msgs))
          = drop n (filter (\<lambda>m. \<not> is_system m) msgs)" for n
    by (rule filter_True) (auto dest: in_set_dropD)
  then show ?thesis
    by (simp add: trim_messages_def Let_def py_last_n_def)
qed

text \<open>
  C4, as stated, does not hold: the trimmed list is not in the original relative order.
  The system/developer turns are hoisted in front of the conversation turns
  (\<^verbatim>\<open>system_msgs + convo_msgs\<close>), so a system turn that came after conversation turns
  precedes them in the result, and the result is not a subsequence of the input. Five user
  turns followed by one system turn are trimmed to the system turn followed by the last
  four user turns.
\<close>

theorem trim_hoists_system_counterexample:
  "trim_messages
     [simple_msg ''user'' ''u1'', simple_msg ''user'' ''u2'', simple_msg ''user'' ''u3'',
      simple_msg ''user'' ''u4'', simple_msg ''user'' ''u5'', simple_msg ''system'' ''s1'']
   = [simple_msg ''system'' ''s1'', simple_msg ''user'' ''u2'', simple_msg ''user'' ''u3'',
      simple_msg ''user'' ''u4'', simple_msg ''user'' ''u5'']
   \<and> \<not> subseq
       (trim_messages
          [simple_msg ''user'' ''u1'', simple_msg ''user'' ''u2'', simple_msg ''user'' ''u3'',
           simple_msg ''user'' ''u4'', simple_msg ''user'' ''u5'', simple_msg ''system'' ''s1''])
       [simple_msg ''user'' ''u1'', simple_msg ''user'' ''u2'', simple_msg ''user'' ''u3'',
        simple_msg ''user'' ''u4'', simple_msg ''user'' ''u5'', simple_msg ''system'' ''s1'']"
  by (simp add: trim_messages_def Let_def py_last_n_def is_system_def simple_msg_def
      MAX_HISTORY_def)

text \<open>
  C4, amended. A message list with \<open>k\<close> system/developer turns and \<open>m\<close> conversation
  turns, \<open>m\<close> above the window \<open>MAX_HISTORY = 4\<close>, is trimmed to all \<open>k\<close>
  system/developer turns, in their original order among themselves, followed by exactly
  the last 4 conversation turns, in their original order among themselves: the \<open>m - 4\<close>
  oldest conversation turns are the ones dropped, and every system/developer turn is moved
  in front of the conversation turns kept, wherever it stood.
\<close>

theorem trim_keeps_system_and_last_window:
  assumes "k = length (filter is_system msgs)"
    and "m = length (filter (\<lambda>x. \<not> is_system x) msgs)"
    and "m > MAX_HISTORY"
  shows "trim_messages msgs =
           filter is_system msgs @ drop (m - MAX_HISTORY) (filter (\<lambda>x. \<not> is_system x) msgs)
         \<and> filter is_system (trim_messages msgs) = filter is_system msgs
         \<and> length (filter is_system (trim_messages msgs)) = k
         \<and> filter (\<lambda>x. \<not> is_system x) (trim_messages msgs) =
             drop (m - MAX_HISTORY) (filter (\<lambda>x. \<not> is_system x) msgs)
         \<and> length (filter (\<lambda>x. \<not> is_system x) (trim_messages msgs)) = MAX_HISTORY
         \<and> MAX_HISTORY = 4"
proof -
  have a: "trim_messages msgs =
      filter is_system msgs @ drop (m - MAX_HISTORY) (filter (\<lambda>x. \<not> is_system x) msgs)"
    using assms by (simp add: trim_messages_def Let_def py_last_n_def)
  have b: "filter (\<lambda>x. \<not> is_system x) (trim_messages msgs) =
      drop (m - MAX_HISTORY) (filter (\<lambda>x. \<not> is_system x) msgs)"
    using assms by (simp add: filter_convo_trim py_last_n_def)
  have c: "length (drop (m - MAX_HISTORY) (filter (\<lambda>x. \<not> is_system x) msgs)) = MAX_HISTORY"
    using assms by simp
  have d: "length (filter is_system (trim_messages msgs)) = k"
    using assms(1) by (simp only: filter_system_trim)
  have e: "length (filter (\<lambda>x. \<not> is_system x) (trim_messages msgs)) = MAX_HISTORY"
    using c by (simp only: b)
  show ?thesis
    using a b d e filter_system_trim [of msgs] MAX_HISTORY_def by blast
qed

theorem trim_keeps_system_and_last_window_witness:
  "trim_messages
     [simple_msg ''user'' ''u1'', simple_msg ''system'' ''s1'', simple_msg ''user'' ''u2'',
      simple_msg ''assistant'' ''a3'', simple_msg ''user'' ''u4'',
      simple_msg ''assistant'' ''a5'', simple_msg ''developer'' ''s2'',
      simple_msg ''user'' ''u6''] =
     [simple_msg ''system'' ''s1'', simple_msg ''developer'' ''s2'',
      simple_msg ''assistant'' ''a3'', simple_msg ''user'' ''u4'',
      simple_msg ''assistant'' ''a5'', simple_msg ''user'' ''u6'']"
  using trim_keeps_system_and_last_window
    [of 2 "[simple_msg ''user'' ''u1'', simple_msg ''system'' ''s1'', simple_msg ''user'' ''u2'',
            simple_msg ''assistant'' ''a3'', simple_msg ''user'' ''u4'',
            simple_msg ''assistant'' ''a5'', simple_msg ''developer'' ''s2'',
            simple_msg ''user'' ''u6'']" 6]
  by (simp add: is_system_def simple_msg_def MAX_HISTORY_def)

section \<open>Properties: the streaming emitters\<close>

lemma concat_pieces_from:
  "0 < k \<Longrightarrow> length s \<le> hi \<Longrightarrow>
   concat (map (\<lambda>i. take k (drop i s)) (range_step lo hi k)) = drop lo s"
proof (induction lo hi k rule: range_step.induct)
  case (1 lo hi step)
  show ?case
  proof (cases "lo < hi")
    case True
    have "concat (map (\<lambda>i. take step (drop i s)) (range_step lo hi step)) =
            take step (drop lo s)
            @ concat (map (\<lambda>i. take step (drop i s)) (range_step (lo + step) hi step))"
      using True "1.prems" by (subst range_step.simps) simp
    also have "\<dots> = take step (drop lo s) @ drop (lo + step) s"
      using "1.IH" True "1.prems" by simp
    also have "\<dots> = drop lo s"
      by (metis add.commute append_take_drop_id drop_drop)
    finally show ?thesis .
  next
    case False
    then show ?thesis
      using "1.prems" by (subst range_step.simps) simp
  qed
qed

lemma concat_content_pieces: "concat (content_pieces s) = s"
  using concat_pieces_from [of chunk_size s "max (length s) 1" 0]
  by (simp add: content_pieces_def chunk_size_def)

lemma content_pieces_nonempty: "content_pieces s \<noteq> []"
  by (simp add: content_pieces_def chunk_size_def range_step.simps [of 0])

lemma content_pieces_empty: "content_pieces [] = [[]]"
  by (simp add: content_pieces_def chunk_size_def range_step.simps [of 0]
      range_step.simps [of 100])

lemma content_deltas_append:
  "content_deltas (xs @ ys) = content_deltas xs @ content_deltas ys"
  by (induction xs rule: content_deltas.induct) (auto split: delta.splits)

lemma tool_deltas_append: "tool_deltas (xs @ ys) = tool_deltas xs @ tool_deltas ys"
  by (induction xs rule: tool_deltas.induct) (auto split: delta.splits)

lemma content_deltas_tool_chunks:
  "content_deltas (tool_chunks rid created model role idx tcs) = []"
  by (induction tcs arbitrary: idx) auto

lemma tool_deltas_tool_chunks:
  "tool_deltas (tool_chunks rid created model role idx tcs) = zip [idx ..< idx + length tcs] tcs"
proof (induction tcs arbitrary: idx)
  case Nil
  then show ?case by simp
next
  case (Cons tc tcs)
  have "[idx ..< idx + length (tc # tcs)] = idx # [Suc idx ..< Suc idx + length tcs]"
    by (simp add: upt_rec)
  then show ?case
    using Cons.IH [of "Suc idx"] by simp
qed

lemma content_deltas_content_chunks:
  "content_deltas (map (\<lambda>piece. Data (f piece)) ps) = ps" if "\<And>p. ch_delta (f p) = ContentDelta p"
  using that by (induction ps) auto

lemma tool_deltas_content_chunks:
  "tool_deltas (map (\<lambda>piece. Data (f piece)) ps) = []" if "\<And>p. ch_delta (f p) = ContentDelta p"
  using that by (induction ps) auto

lemma proxy_sse_text:
  assumes "\<not> truthy_list (c_tool_calls resp)"
  shows "content_deltas (proxy_sse om resp) = content_pieces (get_or (c_content resp) '''')"
    and "tool_deltas (proxy_sse om resp) = []"
  using assms
  by (simp_all add: proxy_sse_def Let_def content_deltas_append tool_deltas_append
      content_deltas_content_chunks tool_deltas_content_chunks)

lemma proxy_sse_tools:
  assumes "truthy_list (c_tool_calls resp)"
  shows "content_deltas (proxy_sse om resp) = []"
    and "tool_deltas (proxy_sse om resp) =
           zip [0 ..< length (get_or (c_tool_calls resp) [])] (get_or (c_tool_calls resp) [])"
  using assms
  by (simp_all add: proxy_sse_def Let_def content_deltas_append tool_deltas_append
      content_deltas_tool_chunks tool_deltas_tool_chunks)

lemma direct_proxy_sse_text:
  assumes "\<not> truthy_list (c_tool_calls resp)"
  shows "content_deltas (direct_proxy_sse om resp) = content_pieces (get_or (c_content resp) '''')"
    and "tool_deltas (direct_proxy_sse om resp) = []"
  using assms
  by (simp_all add: direct_proxy_sse_def Let_def content_deltas_append tool_deltas_append
      content_deltas_content_chunks tool_deltas_content_chunks)

lemma direct_proxy_sse_tools:
  assumes "truthy_list (c_tool_calls resp)"
  shows "content_deltas (direct_proxy_sse om resp) = []"
    and "tool_deltas (direct_proxy_sse om resp) =
           zip [0 ..< length (get_or (c_tool_calls resp) [])] (get_or (c_tool_calls resp) [])"
  using assms
  by (simp_all add: direct_proxy_sse_def Let_def content_deltas_append tool_deltas_append
      content_deltas_tool_chunks tool_deltas_tool_chunks)

lemma forced_sse_deltas:
  "content_deltas (forced_sse now om tcs) = []"
  "tool_deltas (forced_sse now om tcs) = zip [0 ..< length tcs] tcs"
  by (simp_all add: forced_sse_def content_deltas_append tool_deltas_append
      content_deltas_tool_chunks tool_deltas_tool_chunks)

text \<open>
  C10. When the answer has no tool calls and its content text is empty, the stream of
  \<^verbatim>\<open>_proxy\<close> and the stream of \<^verbatim>\<open>_direct_proxy\<close> are each: the role-announcement
  chunk, exactly one content-delta chunk whose payload is the empty string, the terminal
  chunk, and the end-of-stream marker. For every answer without tool calls the stream has
  at least one content-delta event, and the payloads concatenate to the content text.
\<close>

theorem empty_content_one_empty_delta:
  assumes "\<not> truthy_list (c_tool_calls resp)"
  shows "content_deltas (proxy_sse om resp) \<noteq> []
       \<and> content_deltas (direct_proxy_sse om resp) \<noteq> []
       \<and> concat (content_deltas (proxy_sse om resp)) = get_or (c_content resp) ''''
       \<and> concat (content_deltas (direct_proxy_sse om resp)) = get_or (c_content resp) ''''
       \<and> (get_or (c_content resp) '''' = '''' \<longrightarrow>
            content_deltas (proxy_sse om resp) = ['''']
          \<and> content_deltas (direct_proxy_sse om resp) = ['''']
          \<and> map (\<lambda>e. case e of Done \<Rightarrow> None | Data c \<Rightarrow> Some (ch_delta c, ch_finish c))
                (proxy_sse om resp) =
              [Some (RoleDelta (get_or (c_role resp) ''assistant'') '''', None),
               Some (ContentDelta '''', None),
               Some (EmptyDelta, Some (get_or (c_finish resp) ''stop'')),
               None]
          \<and> map (\<lambda>e. case e of Done \<Rightarrow> None | Data c \<Rightarrow> Some (ch_delta c, ch_finish c))
                (direct_proxy_sse om resp) =
              [Some (RoleDelta (get_or (c_role resp) ''assistant'') '''', None),
               Some (ContentDelta '''', None),
               Some (EmptyDelta, Some (get_or (c_finish resp) ''stop'')),
               None])"
proof -
  have p: "content_deltas (proxy_sse om resp) = content_pieces (get_or (c_content resp) '''')"
    and d: "content_deltas (direct_proxy_sse om resp) = content_pieces (get_or (c_content resp) '''')"
    using assms by (simp_all add: proxy_sse_text direct_proxy_sse_text)
  have shape_p: "map (\<lambda>e. case e of Done \<Rightarrow> None | Data c \<Rightarrow> Some (ch_delta c, ch_finish c))
                (proxy_sse om resp) =
              [Some (RoleDelta (get_or (c_role resp) ''assistant'') '''', None),
               Some (ContentDelta '''', None),
               Some (EmptyDelta, Some (get_or (c_finish resp) ''stop'')),
               None]" if "get_or (c_content resp) '''' = ''''"
    using assms that by (simp add: proxy_sse_def Let_def content_pieces_empty)
  have shape_d: "map (\<lambda>e. case e of Done \<Rightarrow> None | Data c \<Rightarrow> Some (ch_delta c, ch_finish c))
                (direct_proxy_sse om resp) =
              [Some (RoleDelta (get_or (c_role resp) ''assistant'') '''', None),
               Some (ContentDelta '''', None),
               Some (EmptyDelta, Some (get_or (c_finish resp) ''stop'')),
               None]" if "get_or (c_content resp) '''' = ''''"
    using assms that by (simp add: direct_proxy_sse_def Let_def content_pieces_empty)
  show ?thesis
    using shape_p shape_d
    by (simp add: p d content_pieces_nonempty concat_content_pieces content_pieces_empty)
qed

theorem empty_content_one_empty_delta_witness:
  "\<not> truthy_list (c_tool_calls (answer (Some '''') None))
   \<and> content_deltas (proxy_sse ''gpt-5.2'' (answer (Some '''') None)) = ['''']
   \<and> content_deltas (direct_proxy_sse ''deepseek-v3'' (answer None (Some []))) = ['''']"
proof -
  have h1: "\<not> truthy_list (c_tool_calls (answer (Some '''') None))"
    and h2: "\<not> truthy_list (c_tool_calls (answer None (Some [])))"
    by (simp_all add: answer_def truthy_list_def)
  have e1: "get_or (c_content (answer (Some '''') None)) '''' = ''''"
    and e2: "get_or (c_content (answer None (Some []))) '''' = ''''"
    by (simp_all add: answer_def get_or_def)
  have c1: "content_deltas (proxy_sse ''gpt-5.2'' (answer (Some '''') None)) = ['''']"
    using empty_content_one_empty_delta [OF h1, of "''gpt-5.2''"] e1 by blast
  have c2: "content_deltas (direct_proxy_sse ''deepseek-v3'' (answer None (Some []))) = ['''']"
    using empty_content_one_empty_delta [OF h2, of "''deepseek-v3''"] e2 by blast
  show ?thesis
    by (rule conjI) (rule h1, rule conjI, rule c1, rule c2)
qed

text \<open>
  C2, as stated, fails: an answer that carries both content text and tool calls (the
  answer \<^verbatim>\<open>_proxy\<close> builds when it injects a forced call and keeps the model text, or a
  backend answer with both) is streamed as tool-call chunks only, so the content-delta
  payloads concatenate to the empty text, not to the content.
\<close>

theorem stream_content_lost_counterexample:
  "concat (content_deltas (proxy_sse ''gpt-5.2'' (answer (Some ''On it.'') (Some [sample_call]))))
     \<noteq> get_or (c_content (answer (Some ''On it.'') (Some [sample_call]))) ''''"
  by (simp add: proxy_sse_def Let_def answer_def truthy_list_def get_or_def
      content_deltas_append)

text \<open>
  C2, amended. For an answer without tool calls, in \<^verbatim>\<open>_proxy\<close> and in
  \<^verbatim>\<open>_direct_proxy\<close>, the content-delta payloads concatenated in emission order are the
  content text (an absent or null content read as the empty text), which is the content
  of the unary answer, and no tool-call delta is emitted. For an answer with tool calls
  no content delta is emitted, and the tool-call deltas carry, in order and indexed from
  0, exactly the id, name and arguments of the calls. The directive shortcut of
  \<^verbatim>\<open>do_POST\<close> streams its forced calls in the same way, its unary answer having the
  same calls and no content.
\<close>

theorem stream_reconstructs_answer:
  "(\<not> truthy_list (c_tool_calls resp) \<longrightarrow>
       concat (content_deltas (proxy_sse om resp)) = get_or (c_content resp) ''''
     \<and> concat (content_deltas (direct_proxy_sse om resp)) = get_or (c_content resp) ''''
     \<and> tool_deltas (proxy_sse om resp) = []
     \<and> tool_deltas (direct_proxy_sse om resp) = [])
   \<and> (truthy_list (c_tool_calls resp) \<longrightarrow>
       content_deltas (proxy_sse om resp) = []
     \<and> content_deltas (direct_proxy_sse om resp) = []
     \<and> map snd (tool_deltas (proxy_sse om resp)) = get_or (c_tool_calls resp) []
     \<and> map snd (tool_deltas (direct_proxy_sse om resp)) = get_or (c_tool_calls resp) []
     \<and> map fst (tool_deltas (proxy_sse om resp)) = [0 ..< length (get_or (c_tool_calls resp) [])]
     \<and> map fst (tool_deltas (direct_proxy_sse om resp)) =
         [0 ..< length (get_or (c_tool_calls resp) [])])
   \<and> content_deltas (forced_sse now om forced_tc) = []
   \<and> map snd (tool_deltas (forced_sse now om forced_tc)) = forced_tc
   \<and> map fst (tool_deltas (forced_sse now om forced_tc)) = [0 ..< length forced_tc]
   \<and> c_content (synth_resp now om forced_tc) = None
   \<and> c_tool_calls (synth_resp now om forced_tc) = Some forced_tc"
proof -
  have plain: "concat (content_deltas (proxy_sse om resp)) = get_or (c_content resp) ''''
     \<and> concat (content_deltas (direct_proxy_sse om resp)) = get_or (c_content resp) ''''
     \<and> tool_deltas (proxy_sse om resp) = []
     \<and> tool_deltas (direct_proxy_sse om resp) = []" if "\<not> truthy_list (c_tool_calls resp)"
    using that by (simp add: proxy_sse_text direct_proxy_sse_text concat_content_pieces)
  then have plain': "\<not> truthy_list (c_tool_calls resp) \<longrightarrow>
       concat (content_deltas (proxy_sse om resp)) = get_or (c_content resp) ''''
     \<and> concat (content_deltas (direct_proxy_sse om resp)) = get_or (c_content resp) ''''
     \<and> tool_deltas (proxy_sse om resp) = []
     \<and> tool_deltas (direct_proxy_sse om resp) = []"
    by (rule impI)
  have tools: "content_deltas (proxy_sse om resp) = []
     \<and> content_deltas (direct_proxy_sse om resp) = []
     \<and> map snd (tool_deltas (proxy_sse om resp)) = get_or (c_tool_calls resp) []
     \<and> map snd (tool_deltas (direct_proxy_sse om resp)) = get_or (c_tool_calls resp) []
     \<and> map fst (tool_deltas (proxy_sse om resp)) = [0 ..< length (get_or (c_tool_calls resp) [])]
     \<and> map fst (tool_deltas (direct_proxy_sse om resp)) =
         [0 ..< length (get_or (c_tool_calls resp) [])]" if "truthy_list (c_tool_calls resp)"
    using that by (simp add: proxy_sse_tools direct_proxy_sse_tools)
  then have tools': "truthy_list (c_tool_calls resp) \<longrightarrow>
       content_deltas (proxy_sse om resp) = []
     \<and> content_deltas (direct_proxy_sse om resp) = []
     \<and> map snd (tool_deltas (proxy_sse om resp)) = get_or (c_tool_calls resp) []
     \<and> map snd (tool_deltas (direct_proxy_sse om resp)) = get_or (c_tool_calls resp) []
     \<and> map fst (tool_deltas (proxy_sse om resp)) = [0 ..< length (get_or (c_tool_calls resp) [])]
     \<and> map fst (tool_deltas (direct_proxy_sse om resp)) =
         [0 ..< length (get_or (c_tool_calls resp) [])]"
    by (rule impI)
  have forced: "content_deltas (forced_sse now om forced_tc) = []
   \<and> map snd (tool_deltas (forced_sse now om forced_tc)) = forced_tc
   \<and> map fst (tool_deltas (forced_sse now om forced_tc)) = [0 ..< length forced_tc]
   \<and> c_content (synth_resp now om forced_tc) = None
   \<and> c_tool_calls (synth_resp now om forced_tc) = Some forced_tc"
    by (simp add: forced_sse_deltas synth_resp_def)
  show ?thesis
    by (rule conjI) (rule plain', rule conjI, rule tools', rule forced)
qed

theorem stream_reconstructs_answer_witness:
  "\<not> truthy_list (c_tool_calls (answer (Some ''Hello there'') None))
   \<and> concat (content_deltas (proxy_sse ''gpt-5.2'' (answer (Some ''Hello there'') None)))
       = ''Hello there''
   \<and> truthy_list (c_tool_calls (answer None (Some [sample_call])))
   \<and> map snd (tool_deltas (proxy_sse ''gpt-5.2'' (answer None (Some [sample_call]))))
       = [sample_call]"
proof -
  have a: "\<not> truthy_list (c_tool_calls (answer (Some ''Hello there'') None))"
    and b: "truthy_list (c_tool_calls (answer None (Some [sample_call])))"
    by (simp_all add: answer_def truthy_list_def)
  have g1: "get_or (c_content (answer (Some ''Hello there'') None)) '''' = ''Hello there''"
    and g2: "get_or (c_tool_calls (answer None (Some [sample_call]))) [] = [sample_call]"
    by (simp_all add: answer_def get_or_def)
  have d: "map snd (tool_deltas (proxy_sse ''gpt-5.2'' (answer None (Some [sample_call]))))
             = get_or (c_tool_calls (answer None (Some [sample_call]))) []"
    using stream_reconstructs_answer [of "answer None (Some [sample_call])" "''gpt-5.2''"] b
    by blast
  have e: "concat (content_deltas (proxy_sse ''gpt-5.2'' (answer (Some ''Hello there'') None)))
             = get_or (c_content (answer (Some ''Hello there'') None)) ''''"
    using stream_reconstructs_answer [of "answer (Some ''Hello there'') None" "''gpt-5.2''"] a
    by blast
  show ?thesis
    by (rule conjI) (rule a, rule conjI, rule e [unfolded g1], rule conjI, rule b,
        rule d [unfolded g2])
qed

section \<open>Properties: the model-name rewriter\<close>

lemma REVERSE_MAP_eq:
  "REVERSE_MAP = [(''llama3.3:latest'', ''gpt-5.2''), (''qwen2.5-coder:32b'', ''gpt-5.1-codex''),
                  (''phi4:latest'', ''gpt-5-mini'')]"
  by (simp add: REVERSE_MAP_def MODEL_MAP_def)

lemma str_replace_Nil [simp]: "old \<noteq> [] \<Longrightarrow> str_replace old new [] = []"
  by (subst str_replace.simps) simp

lemma str_replace_Cons_skip:
  "old \<noteq> [] \<Longrightarrow> \<not> prefix old (c # cs) \<Longrightarrow>
   str_replace old new (c # cs) = c # str_replace old new cs"
  by (subst str_replace.simps) simp

lemma str_replace_at:
  "old \<noteq> [] \<Longrightarrow> str_replace old new (old @ s) = new @ str_replace old new s"
  by (subst str_replace.simps) simp

lemma str_replace_absent:
  "old \<noteq> [] \<Longrightarrow> \<not> sublist old s \<Longrightarrow> str_replace old new s = s"
proof (induction s)
  case Nil
  then show ?case by simp
next
  case (Cons c cs)
  have a: "\<not> prefix old (c # cs)"
    using Cons.prems(2) by (simp add: sublist_Cons_right)
  have b: "\<not> sublist old cs"
    using Cons.prems(2) by (simp add: sublist_Cons_right)
  show ?case
    using str_replace_Cons_skip [OF Cons.prems(1) a] Cons.IH [OF Cons.prems(1) b]
    by (simp only:)
qed

lemma str_replace_skip_prefix:
  "old \<noteq> [] \<Longrightarrow> (\<forall>i < length pre. \<not> prefix old (drop i (pre @ rest))) \<Longrightarrow>
   str_replace old new (pre @ rest) = pre @ str_replace old new rest"
proof (induction pre)
  case Nil
  then show ?case by simp
next
  case (Cons c pre)
  have "\<not> prefix old (drop 0 ((c # pre) @ rest))"
    using Cons.prems(2) by (metis length_greater_0_conv list.distinct(1))
  then have a: "\<not> prefix old (c # pre @ rest)"
    by simp
  have b: "\<forall>i < length pre. \<not> prefix old (drop i (pre @ rest))"
  proof (intro allI impI)
    fix i assume "i < length pre"
    then have "Suc i < length (c # pre)" by simp
    then have "\<not> prefix old (drop (Suc i) ((c # pre) @ rest))"
      using Cons.prems(2) by blast
    then show "\<not> prefix old (drop i (pre @ rest))" by simp
  qed
  have "str_replace old new ((c # pre) @ rest) = c # str_replace old new (pre @ rest)"
    using str_replace_Cons_skip [OF Cons.prems(1) a] by simp
  then show ?case
    using Cons.IH [OF Cons.prems(1) b] by simp
qed

lemma inert_iff:
  "inert x k \<longleftrightarrow>
     \<not> sublist k x \<and> \<not> sublist x k
     \<and> (\<forall>u. u \<noteq> [] \<and> suffix u x \<longrightarrow> \<not> prefix u k)
     \<and> (\<forall>u. u \<noteq> [] \<and> prefix u x \<longrightarrow> \<not> suffix u k)"
  by (auto simp: inert_def list_all_iff)

lemma border_free_iff:
  "border_free k \<longleftrightarrow> (\<forall>u. u \<noteq> [] \<and> u \<noteq> k \<and> prefix u k \<longrightarrow> \<not> suffix u k)"
  by (auto simp: border_free_def list_all_iff)

text \<open>An occurrence of a key in a text around an inert part lies on one side of it.\<close>

lemma occurrence_beside_inert:
  assumes i: "inert x k" and e: "ps @ k @ ss = a @ x @ b"
  shows "(\<exists>vs. a = ps @ k @ vs) \<or> (\<exists>us. ps = a @ x @ us \<and> us @ k @ ss = b)"
proof -
  have nkx: "\<not> sublist k x" and nxk: "\<not> sublist x k"
    and suf: "\<And>u. u \<noteq> [] \<Longrightarrow> suffix u x \<Longrightarrow> \<not> prefix u k"
    and pre: "\<And>u. u \<noteq> [] \<Longrightarrow> prefix u x \<Longrightarrow> \<not> suffix u k"
    using i unfolding inert_iff by blast+
  have xne: "x \<noteq> []"
    using nxk by auto
  have kne: "k \<noteq> []"
    using nkx by auto
  from e consider
      (A) us where "ps = a @ us" "us @ k @ ss = x @ b"
    | (B) us where "ps @ us = a" "k @ ss = us @ x @ b"
    unfolding append_eq_append_conv2 [of ps "k @ ss" a "x @ b"] by blast
  then show ?thesis
  proof cases
    case A
    from A(2) consider
        (A1) vs where "us = x @ vs" "vs @ k @ ss = b"
      | (A2) vs where "us @ vs = x" "k @ ss = vs @ b"
      unfolding append_eq_append_conv2 [of us "k @ ss" x b] by blast
    then show ?thesis
    proof cases
      case A1
      then show ?thesis
        using A(1) by simp
    next
      case A2
      from A2(2) consider
          (A2a) ws where "k = vs @ ws" "ws @ ss = b"
        | (A2b) ws where "k @ ws = vs" "ss = ws @ b"
        unfolding append_eq_append_conv2 [of k ss vs b] by blast
      then show ?thesis
      proof cases
        case A2a
        show ?thesis
        proof (cases "vs = []")
          case True
          then have "us = x" using A2(1) by simp
          then have "ps = a @ x @ []" "[] @ k @ ss = b"
            using A(1) A2(2) True by simp_all
          then show ?thesis by blast
        next
          case False
          have "suffix vs x"
            using A2(1) by (auto simp: suffix_def)
          moreover have "prefix vs k"
            using A2a(1) by simp
          ultimately show ?thesis
            using suf [OF False] by blast
        qed
      next
        case A2b
        have "x = us @ k @ ws"
          using A2(1) A2b(1) by simp
        then have "sublist k x"
          unfolding sublist_def by blast
        then show ?thesis
          using nkx by blast
      qed
    qed
  next
    case B
    from B(2) consider
        (B1) vs where "k = us @ vs" "vs @ ss = x @ b"
      | (B2) vs where "k @ vs = us" "ss = vs @ x @ b"
      unfolding append_eq_append_conv2 [of k ss us "x @ b"] by blast
    then show ?thesis
    proof cases
      case B1
      from B1(2) consider
          (B1a) ws where "vs = x @ ws" "ws @ ss = b"
        | (B1b) ws where "vs @ ws = x" "ss = ws @ b"
        unfolding append_eq_append_conv2 [of vs ss x b] by blast
      then show ?thesis
      proof cases
        case B1a
        have "k = us @ x @ ws"
          using B1(1) B1a(1) by simp
        then have "sublist x k"
          unfolding sublist_def by blast
        then show ?thesis
          using nxk by blast
      next
        case B1b
        show ?thesis
        proof (cases "vs = []")
          case True
          then have "a = ps @ k @ []"
            using B(1) B1(1) by simp
          then show ?thesis by blast
        next
          case False
          have "prefix vs x"
            using B1b(1) by (auto simp: prefix_def)
          moreover have "suffix vs k"
            using B1(1) by (auto simp: suffix_def)
          ultimately show ?thesis
            using pre [OF False] by blast
        qed
      qed
    next
      case B2
      have "a = ps @ k @ vs"
        using B(1) B2(1) by simp
      then show ?thesis by blast
    qed
  qed
qed

lemma prefix_drop_occurrence:
  assumes "prefix k (drop i t)" and "i \<le> length t"
  shows "\<exists>ps ss. ps @ k @ ss = t \<and> length ps = i"
proof -
  obtain zs where "drop i t = k @ zs"
    using assms(1) by (auto simp: prefix_def)
  then have "take i t @ k @ zs = t"
    by (metis append_take_drop_id)
  moreover have "length (take i t) = i"
    using assms(2) by simp
  ultimately show ?thesis by blast
qed

lemma no_start_beside_inert:
  assumes i: "inert s k" and g: "\<not> sublist k g" and l: "i < length g + length s"
  shows "\<not> prefix k (drop i (g @ s @ rest))"
proof
  assume "prefix k (drop i (g @ s @ rest))"
  then obtain ps ss where e: "ps @ k @ ss = g @ s @ rest" and lp: "length ps = i"
    using prefix_drop_occurrence [of k i "g @ s @ rest"] l by auto
  from occurrence_beside_inert [OF i e] show False
  proof
    assume "\<exists>vs. g = ps @ k @ vs"
    then have "sublist k g"
      unfolding sublist_def by blast
    then show False using g by blast
  next
    assume "\<exists>us. ps = g @ s @ us \<and> us @ k @ ss = rest"
    then have "length g + length s \<le> length ps"
      by auto
    then show False using l lp by simp
  qed
qed

lemma no_start_before_key:
  assumes b: "border_free k" and g: "\<not> sublist k g" and l: "i < length g"
  shows "\<not> prefix k (drop i (g @ k @ rest))"
proof
  assume "prefix k (drop i (g @ k @ rest))"
  then obtain ps ss where e: "ps @ k @ ss = g @ k @ rest" and lp: "length ps = i"
    using prefix_drop_occurrence [of k i "g @ k @ rest"] l by auto
  from e consider
      (A) us where "ps = g @ us"
    | (B) us where "ps @ us = g" "k @ ss = us @ k @ rest"
    unfolding append_eq_append_conv2 [of ps "k @ ss" g "k @ rest"] by blast
  then show False
  proof cases
    case A
    then show False using l lp by simp
  next
    case B
    have une: "us \<noteq> []"
      using B(1) l lp by auto
    from B(2) consider
        (B1) vs where "k = us @ vs" "vs @ ss = k @ rest"
      | (B2) vs where "k @ vs = us"
      unfolding append_eq_append_conv2 [of k ss us "k @ rest"] by blast
    then show False
    proof cases
      case B1
      have lv: "length vs < length k"
        using B1(1) une by (metis length_append length_greater_0_conv less_add_same_cancel2 add.commute)
      have "prefix vs (k @ rest)"
        using B1(2) by (metis prefixI)
      then have pv: "prefix vs k"
        using lv by (auto simp: prefix_append)
      have sv: "suffix vs k"
        using B1(1) by (auto simp: suffix_def)
      have nv: "vs \<noteq> k"
        using lv by auto
      show False
      proof (cases "vs = []")
        case True
        then have "g = ps @ k @ []"
          using B(1) B1(1) by simp
        then have "sublist k g"
          unfolding sublist_def by blast
        then show False using g by blast
      next
        case False
        then show False
          using b pv sv nv unfolding border_free_iff by blast
      qed
    next
      case B2
      then have "g = ps @ k @ vs"
        using B(1) by simp
      then have "sublist k g"
        unfolding sublist_def by blast
      then show False using g by blast
    qed
  qed
qed

lemma interleaved_Nil [simp]: "interleaved [] tail = tail"
  by (simp add: interleaved_def)

lemma interleaved_Cons [simp]:
  "interleaved ((g, s) # parts) tail = g @ s @ interleaved parts tail"
  by (simp add: interleaved_def)

text \<open>One pass of \<^verbatim>\<open>replace\<close> over an interleaved text replaces the separators that are
  the key and nothing else.\<close>

lemma str_replace_interleaved:
  assumes ne: "k \<noteq> []" and b: "border_free k" and t: "\<not> sublist k tail"
    and p: "\<forall>(g, s) \<in> set parts. \<not> sublist k g \<and> (s = k \<or> inert s k)"
  shows "str_replace k X (interleaved parts tail)
           = interleaved (map (\<lambda>(g, s). (g, if s = k then X else s)) parts) tail"
  using p
proof (induction parts)
  case Nil
  then show ?case
    using str_replace_absent [OF ne t] by simp
next
  case (Cons gs parts)
  obtain g s where gs: "gs = (g, s)"
    by (cases gs)
  have g: "\<not> sublist k g" and s: "s = k \<or> inert s k"
    using Cons.prems gs by auto
  have rest: "str_replace k X (interleaved parts tail)
           = interleaved (map (\<lambda>(g, s). (g, if s = k then X else s)) parts) tail"
    using Cons.IH Cons.prems by simp
  define r where "r = interleaved parts tail"
  show ?case
  proof (cases "s = k")
    case True
    have "\<forall>i < length g. \<not> prefix k (drop i (g @ k @ r))"
      using no_start_before_key [OF b g] by blast
    then have "str_replace k X (g @ k @ r) = g @ str_replace k X (k @ r)"
      using str_replace_skip_prefix [OF ne, of g "k @ r" X] by blast
    then have "str_replace k X (g @ k @ r) = g @ X @ str_replace k X r"
      using str_replace_at [OF ne, of X r] by simp
    then show ?thesis
      using True rest by (simp add: gs r_def)
  next
    case False
    then have i: "inert s k"
      using s by blast
    have "\<forall>i < length (g @ s). \<not> prefix k (drop i ((g @ s) @ r))"
      using no_start_beside_inert [OF i g] by simp
    then have "str_replace k X ((g @ s) @ r) = (g @ s) @ str_replace k X r"
      using str_replace_skip_prefix [OF ne, of "g @ s" r X] by blast
    then show ?thesis
      using False rest by (simp add: gs r_def)
  qed
qed

text \<open>The passes for a list of keys, none of which takes part in an occurrence of
  another, replace every separator.\<close>

lemma str_replace_passes:
  assumes "\<forall>k \<in> set ks. k \<noteq> [] \<and> border_free k \<and> inert X k"
    and "\<forall>k \<in> set ks. \<forall>k' \<in> set ks. k \<noteq> k' \<longrightarrow> inert k' k"
    and "\<forall>(g, s) \<in> set parts. (s = X \<or> s \<in> set ks) \<and> (\<forall>k \<in> set ks. \<not> sublist k g)"
    and "\<forall>k \<in> set ks. \<not> sublist k tail"
  shows "foldl (\<lambda>t k. str_replace k X t) (interleaved parts tail) ks
           = interleaved (map (\<lambda>(g, s). (g, X)) parts) tail"
  using assms
proof (induction ks arbitrary: parts)
  case Nil
  then have "map (\<lambda>(g, s). (g, X)) parts = parts"
    by (induction parts) auto
  then show ?case by simp
next
  case (Cons k ks)
  define parts' where "parts' = map (\<lambda>(g, s). (g, if s = k then X else s)) parts"
  have ne: "k \<noteq> []" and b: "border_free k"
    using Cons.prems(1) by simp_all
  have t: "\<not> sublist k tail"
    using Cons.prems(4) by simp
  have p: "\<forall>(g, s) \<in> set parts. \<not> sublist k g \<and> (s = k \<or> inert s k)"
  proof (intro ballI)
    fix gs assume m: "gs \<in> set parts"
    obtain g s where gs: "gs = (g, s)" by (cases gs)
    have 1: "s = X \<or> s \<in> set (k # ks)" and 2: "\<not> sublist k g"
      using Cons.prems(3) m gs by auto
    have "s = k \<or> inert s k"
    proof (cases "s = k")
      case True then show ?thesis by blast
    next
      case False
      show ?thesis
      proof (cases "s = X")
        case True
        then show ?thesis using Cons.prems(1) by simp
      next
        case nx: False
        then have "s \<in> set (k # ks)" using 1 by blast
        then show ?thesis
          using Cons.prems(2) False by (metis list.set_intros(1))
      qed
    qed
    then show "case gs of (g, s) \<Rightarrow> \<not> sublist k g \<and> (s = k \<or> inert s k)"
      using 2 gs by simp
  qed
  have step: "str_replace k X (interleaved parts tail) = interleaved parts' tail"
    unfolding parts'_def by (rule str_replace_interleaved [OF ne b t p])
  have a1: "\<forall>k \<in> set ks. k \<noteq> [] \<and> border_free k \<and> inert X k"
    using Cons.prems(1) by simp
  have a2: "\<forall>k \<in> set ks. \<forall>k' \<in> set ks. k \<noteq> k' \<longrightarrow> inert k' k"
    using Cons.prems(2) by simp
  have a3: "\<forall>(g, s) \<in> set parts'. (s = X \<or> s \<in> set ks) \<and> (\<forall>k \<in> set ks. \<not> sublist k g)"
  proof (intro ballI)
    fix gs assume "gs \<in> set parts'"
    then obtain g s0 where m: "(g, s0) \<in> set parts" and gs: "gs = (g, if s0 = k then X else s0)"
      unfolding parts'_def by auto
    have "(s0 = X \<or> s0 \<in> set (k # ks)) \<and> (\<forall>k' \<in> set (k # ks). \<not> sublist k' g)"
      using Cons.prems(3) m by blast
    then show "case gs of (g, s) \<Rightarrow> (s = X \<or> s \<in> set ks) \<and> (\<forall>k \<in> set ks. \<not> sublist k g)"
      unfolding gs by auto
  qed
  have a4: "\<forall>k \<in> set ks. \<not> sublist k tail"
    using Cons.prems(4) by simp
  have "map (\<lambda>(g, s). (g, X)) parts' = map (\<lambda>(g, s). (g, X)) parts"
    unfolding parts'_def by (induction parts) auto
  then show ?case
    using Cons.IH [OF a1 a2 a3 a4] step by simp
qed

text \<open>A key occurs in an interleaved text with inert separators only inside a gap or
  the tail.\<close>

lemma sublist_interleaved_inert:
  assumes "inert X k" and "sublist k (interleaved (map (\<lambda>(g, s). (g, X)) parts) tail)"
  shows "(\<exists>(g, s) \<in> set parts. sublist k g) \<or> sublist k tail"
  using assms(2)
proof (induction parts)
  case Nil
  then show ?case by simp
next
  case (Cons gs parts)
  obtain g s where gs: "gs = (g, s)" by (cases gs)
  define r where "r = interleaved (map (\<lambda>(g, s). (g, X)) parts) tail"
  have "sublist k (g @ X @ r)"
    using Cons.prems by (simp add: gs r_def)
  then obtain ps ss where e: "ps @ k @ ss = g @ X @ r"
    unfolding sublist_def by metis
  from occurrence_beside_inert [OF assms(1) e] show ?case
  proof
    assume "\<exists>vs. g = ps @ k @ vs"
    then have "sublist k g"
      unfolding sublist_def by blast
    then show ?thesis
      using gs by auto
  next
    assume "\<exists>us. ps = g @ X @ us \<and> us @ k @ ss = r"
    then have "sublist k r"
      unfolding sublist_def by blast
    then show ?thesis
      using Cons.IH unfolding r_def by auto
  qed
qed

text \<open>Every text is an interleaved text: it is cut at the leftmost occurrence of a key,
  again and again.\<close>

lemma leftmost_key:
  assumes "\<not> free_of ks t" and "\<forall>k \<in> set ks. k \<noteq> []"
  shows "\<exists>g k r. t = g @ k @ r \<and> k \<in> set ks \<and> free_of ks g"
proof -
  define P where "P n \<longleftrightarrow> (\<exists>k \<in> set ks. \<exists>pre post. t = pre @ k @ post \<and> length pre = n)" for n
  have "\<exists>n. P n"
    using assms(1) unfolding free_of_def list_all_iff sublist_def P_def by blast
  then obtain n where n: "P n" and least: "\<And>m. P m \<Longrightarrow> n \<le> m"
    by (metis ex_least_nat_le linorder_not_less not_less_zero)
  then obtain k pre post where k: "k \<in> set ks" and t: "t = pre @ k @ post" and l: "length pre = n"
    unfolding P_def by blast
  have "free_of ks pre"
    unfolding free_of_def list_all_iff
  proof (intro ballI notI)
    fix k' assume k': "k' \<in> set ks" and s: "sublist k' pre"
    then obtain p s' where e: "pre = p @ k' @ s'"
      unfolding sublist_def by blast
    have "k' \<noteq> []" using assms(2) k' by blast
    then have lp: "length p < length pre"
      using e by (cases k') simp_all
    have "t = p @ k' @ (s' @ k @ post)"
      using t e by simp
    then have "P (length p)"
      unfolding P_def using k' by blast
    then show False
      using least lp l by fastforce
  qed
  then show ?thesis
    using t k by blast
qed

lemma every_text_interleaved:
  assumes "\<forall>k \<in> set ks. k \<noteq> []"
  shows "\<exists>parts tail. t = interleaved parts tail
           \<and> list_all (\<lambda>(g, s). free_of ks g \<and> s \<in> set ks) parts \<and> free_of ks tail"
proof (induction "length t" arbitrary: t rule: less_induct)
  case less
  show ?case
  proof (cases "free_of ks t")
    case True
    then have "t = interleaved [] t \<and> list_all (\<lambda>(g, s). free_of ks g \<and> s \<in> set ks) []
        \<and> free_of ks t"
      by simp
    then show ?thesis by blast
  next
    case False
    then obtain g k r where t: "t = g @ k @ r" and k: "k \<in> set ks" and g: "free_of ks g"
      using leftmost_key [OF False assms] by blast
    have "k \<noteq> []" using assms k by blast
    then have "length r < length t"
      using t by (cases k) simp_all
    then obtain parts tail where r: "r = interleaved parts tail"
        and p: "list_all (\<lambda>(g, s). free_of ks g \<and> s \<in> set ks) parts" and f: "free_of ks tail"
      using less by blast
    have "t = interleaved ((g, k) # parts) tail
        \<and> list_all (\<lambda>(g, s). free_of ks g \<and> s \<in> set ks) ((g, k) # parts) \<and> free_of ks tail"
      using t r p f g k by simp
    then show ?thesis by blast
  qed
qed

lemma backend_ids_eq:
  "backend_ids = [code_points ''llama3.3:latest'', code_points ''qwen2.5-coder:32b'',
                  code_points ''phi4:latest'']"
  by (simp add: backend_ids_def REVERSE_MAP_eq)

lemma backend_ids_apart:
  "list_all (\<lambda>k. k \<noteq> [] \<and> border_free k \<and> list_all (\<lambda>k'. k = k' \<or> inert k' k) backend_ids)
     backend_ids"
  by code_simp

lemma client_ids_inert:
  "list_all (\<lambda>(client_name, local_name). list_all (inert (code_points client_name)) backend_ids)
     MODEL_MAP"
  by code_simp

lemma rewrite_text_passes:
  "rewrite_text text X = foldl (\<lambda>t k. str_replace k X t) text backend_ids"
  by (simp add: rewrite_text_def backend_ids_def foldl_map split_def)

lemma rewrite_text_interleaved:
  assumes x: "list_all (inert X) backend_ids"
    and p: "list_all (\<lambda>(g, s). free_of backend_ids g \<and> s \<in> set backend_ids) parts"
    and t: "free_of backend_ids tail"
  shows "rewrite_text (interleaved parts tail) X
           = interleaved (map (\<lambda>(g, s). (g, X)) parts) tail"
proof -
  have a1: "\<forall>k \<in> set backend_ids. k \<noteq> [] \<and> border_free k \<and> inert X k"
    using backend_ids_apart x unfolding list_all_iff by blast
  have a2: "\<forall>k \<in> set backend_ids. \<forall>k' \<in> set backend_ids. k \<noteq> k' \<longrightarrow> inert k' k"
    using backend_ids_apart unfolding list_all_iff by blast
  have a3: "\<forall>(g, s) \<in> set parts. (s = X \<or> s \<in> set backend_ids)
              \<and> (\<forall>k \<in> set backend_ids. \<not> sublist k g)"
    using p unfolding list_all_iff free_of_def by blast
  have a4: "\<forall>k \<in> set backend_ids. \<not> sublist k tail"
    using t unfolding list_all_iff free_of_def by blast
  show ?thesis
    unfolding rewrite_text_passes by (rule str_replace_passes [OF a1 a2 a3 a4])
qed

lemma interleaved_free:
  assumes x: "list_all (inert X) backend_ids"
    and p: "list_all (\<lambda>(g, s). free_of backend_ids g \<and> s \<in> set backend_ids) parts"
    and t: "free_of backend_ids tail"
  shows "free_of backend_ids (interleaved (map (\<lambda>(g, s). (g, X)) parts) tail)"
  unfolding free_of_def list_all_iff
proof (intro ballI notI)
  fix k assume k: "k \<in> set backend_ids"
    and s: "sublist k (interleaved (map (\<lambda>(g, s). (g, X)) parts) tail)"
  have "inert X k"
    using x k unfolding list_all_iff by blast
  from sublist_interleaved_inert [OF this s] show False
  proof
    assume "\<exists>(g, s) \<in> set parts. sublist k g"
    then show False
      using p k unfolding list_all_iff free_of_def by blast
  next
    assume "sublist k tail"
    then show False
      using t k unfolding list_all_iff free_of_def by blast
  qed
qed

lemma sublist_interleaved_sep:
  "parts \<noteq> [] \<Longrightarrow> sublist X (interleaved (map (\<lambda>(g, s). (g, X)) parts) tail)"
proof (cases parts)
  case Nil
  then show "parts \<noteq> [] \<Longrightarrow> ?thesis" by simp
next
  case (Cons gs rest)
  obtain g s where "gs = (g, s)" by (cases gs)
  then have "interleaved (map (\<lambda>(g, s). (g, X)) parts) tail
               = g @ X @ interleaved (map (\<lambda>(g, s). (g, X)) rest) tail"
    using Cons by simp
  then show ?thesis
    unfolding sublist_def by blast
qed

lemma backend_ids_nonempty: "\<forall>k \<in> set backend_ids. k \<noteq> []"
  using backend_ids_apart unfolding list_all_iff by blast

text \<open>A body of ASCII bytes is decoded and encoded to itself.\<close>

lemma utf8_decode_ascii:
  "list_all (\<lambda>c. (of_char c :: nat) < 0x80) data \<Longrightarrow> utf8_decode data = map of_char data"
  unfolding utf8_decode_def by (induction data) simp_all

lemma utf8_encode_ascii:
  "list_all (\<lambda>c. (of_char c :: nat) < 0x80) data \<Longrightarrow> utf8_encode (map of_char data) = Inr data"
proof -
  assume a: "list_all (\<lambda>c. (of_char c :: nat) < 0x80) data"
  have p: "utf8_encode_point (of_char c) = Some [c]" if "(of_char c :: nat) < 0x80" for c
    using that by (simp add: utf8_encode_point_def)
  have 1: "list_all (\<lambda>c. utf8_encode_point c \<noteq> None) (map of_char data)"
    using a by (induction data) (simp_all add: p)
  have 2: "concat (map (\<lambda>c. the (utf8_encode_point c)) (map of_char data)) = data"
    using a by (induction data) (simp_all add: p)
  show ?thesis
    unfolding utf8_encode_def using 1 2 by (simp only: if_True)
qed

text \<open>
  C3, as stated, does not hold: a backend id is not replaced by its own client-facing
  counterpart. The loop of \<^verbatim>\<open>rewrite_model_in_response\<close> runs over the items of
  \<^verbatim>\<open>REVERSE_MAP\<close> and ignores the client name of each item: every backend id is replaced
  by the model of the request. With the request model \<^verbatim>\<open>gpt-5.2\<close>, the body that names
  \<^verbatim>\<open>phi4:latest\<close> comes back naming \<^verbatim>\<open>gpt-5.2\<close>, where the counterpart of \<^verbatim>\<open>phi4:latest\<close>
  is \<^verbatim>\<open>gpt-5-mini\<close>.
\<close>

theorem rewrite_not_by_counterpart_counterexample:
  "rewrite_model_in_response ''{\"model\": \"phi4:latest\"}'' ''gpt-5.2''
     = Inr ''{\"model\": \"gpt-5.2\"}''
   \<and> utf8_encode (rewrite_by_counterpart (utf8_decode ''{\"model\": \"phi4:latest\"}''))
     = Inr ''{\"model\": \"gpt-5-mini\"}''
   \<and> rewrite_model_in_response ''{\"model\": \"phi4:latest\"}'' ''gpt-5.2''
     \<noteq> utf8_encode (rewrite_by_counterpart (utf8_decode ''{\"model\": \"phi4:latest\"}''))"
  by code_simp

text \<open>
  C3, amended. The body is decoded as UTF-8 (invalid bytes replaced), rewritten and encoded
  again. Every decoded body is a sequence of gaps free of backend ids, with a backend id
  after each gap, and a tail free of backend ids. When the model of the request takes part
  in no occurrence of a backend id, as every client id of \<^verbatim>\<open>MODEL_MAP\<close> does, the rewritten
  text is the same gaps and tail with the model of the request in the place of every
  backend id, whichever backend id stood there and however many there were; no backend id
  occurs in it; it contains the model of the request when the body contained a backend id;
  and a body of ASCII bytes without backend id is returned as it is.
\<close>

theorem rewrite_substitutes_request_model:
  assumes x: "list_all (inert (code_points X)) backend_ids"
    and p: "list_all (\<lambda>(g, s). free_of backend_ids g \<and> s \<in> set backend_ids) parts"
    and t: "free_of backend_ids tail"
    and d: "utf8_decode data = interleaved parts tail"
  shows "rewrite_model_in_response data X
           = utf8_encode (interleaved (map (\<lambda>(g, s). (g, code_points X)) parts) tail)
         \<and> free_of backend_ids (interleaved (map (\<lambda>(g, s). (g, code_points X)) parts) tail)
         \<and> (parts \<noteq> [] \<longrightarrow>
              sublist (code_points X)
                (interleaved (map (\<lambda>(g, s). (g, code_points X)) parts) tail))
         \<and> (parts = [] \<and> list_all (\<lambda>c. (of_char c :: nat) < 0x80) data \<longrightarrow>
              rewrite_model_in_response data X = Inr data)
         \<and> (\<exists>parts' tail'. utf8_decode body = interleaved parts' tail'
              \<and> list_all (\<lambda>(g, s). free_of backend_ids g \<and> s \<in> set backend_ids) parts'
              \<and> free_of backend_ids tail')
         \<and> list_all (\<lambda>(client_name, local_name).
                       list_all (inert (code_points client_name)) backend_ids) MODEL_MAP"
proof -
  have r: "rewrite_text (utf8_decode data) (code_points X)
             = interleaved (map (\<lambda>(g, s). (g, code_points X)) parts) tail"
    unfolding d by (rule rewrite_text_interleaved [OF x p t])
  have a: "rewrite_model_in_response data X
           = utf8_encode (interleaved (map (\<lambda>(g, s). (g, code_points X)) parts) tail)"
    unfolding rewrite_model_in_response_def r ..
  have b: "free_of backend_ids (interleaved (map (\<lambda>(g, s). (g, code_points X)) parts) tail)"
    by (rule interleaved_free [OF x p t])
  have c: "sublist (code_points X)
                (interleaved (map (\<lambda>(g, s). (g, code_points X)) parts) tail)"
    if "parts \<noteq> []"
    using that by (rule sublist_interleaved_sep)
  have e: "rewrite_model_in_response data X = Inr data"
    if "parts = [] \<and> list_all (\<lambda>c. (of_char c :: nat) < 0x80) data"
  proof -
    have "utf8_decode data = map of_char data"
      using that utf8_decode_ascii by blast
    then have "tail = map of_char data"
      using d that by simp
    then show ?thesis
      using a that utf8_encode_ascii [of data] by simp
  qed
  have f: "\<exists>parts' tail'. utf8_decode body = interleaved parts' tail'
              \<and> list_all (\<lambda>(g, s). free_of backend_ids g \<and> s \<in> set backend_ids) parts'
              \<and> free_of backend_ids tail'"
    by (rule every_text_interleaved [OF backend_ids_nonempty])
  show ?thesis
    using a b c e f client_ids_inert by (intro conjI impI) assumption+
qed

lemma sample_body_decoded: "utf8_decode sample_body = interleaved sample_parts (code_points ''\"}'')"
  by code_simp

lemma sample_parts_free:
  "list_all (\<lambda>(g, s). free_of backend_ids g \<and> s \<in> set backend_ids) sample_parts"
  "free_of backend_ids (code_points ''\"}'')"
  "list_all (inert (code_points ''gpt-5.2'')) backend_ids"
  by code_simp+

lemma sample_body_encoded:
  "utf8_encode (interleaved (map (\<lambda>(g, s). (g, code_points ''gpt-5.2'')) sample_parts)
      (code_points ''\"}''))
    = Inr (''{\"model\":\"gpt-5.2\",\"content\":\"'' @ [CHR 0xC3, CHR 0xA9]
           @ '' gpt-5.2, gpt-5.2 and gpt-5.2\"}'')"
  by code_simp

theorem rewrite_substitutes_request_model_witness:
  "list_all (inert (code_points ''gpt-5.2'')) backend_ids
   \<and> list_all (\<lambda>(g, s). free_of backend_ids g \<and> s \<in> set backend_ids) sample_parts
   \<and> free_of backend_ids (code_points ''\"}'')
   \<and> utf8_decode sample_body = interleaved sample_parts (code_points ''\"}'')
   \<and> rewrite_model_in_response sample_body ''gpt-5.2''
       = Inr (''{\"model\":\"gpt-5.2\",\"content\":\"'' @ [CHR 0xC3, CHR 0xA9]
              @ '' gpt-5.2, gpt-5.2 and gpt-5.2\"}'')
   \<and> rewrite_model_in_response ''{\"ok\": true}'' ''gpt-5.2'' = Inr ''{\"ok\": true}''"
proof -
  have a: "rewrite_model_in_response sample_body ''gpt-5.2''
       = Inr (''{\"model\":\"gpt-5.2\",\"content\":\"'' @ [CHR 0xC3, CHR 0xA9]
              @ '' gpt-5.2, gpt-5.2 and gpt-5.2\"}'')"
    using rewrite_substitutes_request_model
      [OF sample_parts_free(3) sample_parts_free(1) sample_parts_free(2) sample_body_decoded]
      sample_body_encoded
    by (simp only:)
  have f: "free_of backend_ids (code_points ''{\"ok\": true}'')"
    and g: "utf8_decode ''{\"ok\": true}'' = interleaved [] (code_points ''{\"ok\": true}'')"
    and h: "list_all (\<lambda>c. (of_char c :: nat) < 0x80) ''{\"ok\": true}''"
    by code_simp+
  have e: "list_all (\<lambda>(g, s). free_of backend_ids g \<and> s \<in> set backend_ids) []"
    by simp
  have b: "rewrite_model_in_response ''{\"ok\": true}'' ''gpt-5.2'' = Inr ''{\"ok\": true}''"
    using rewrite_substitutes_request_model [OF sample_parts_free(3) e f g] h
    by blast
  show ?thesis
    using a b sample_parts_free sample_body_decoded by (intro conjI) assumption+
qed

section \<open>Properties: a body that is not JSON\<close>

text \<open>
  C1. When \<^verbatim>\<open>json.loads\<close> raises on the body, the handler of \<^verbatim>\<open>do_POST\<close> catches the
  error and goes on to the call of \<^verbatim>\<open>_proxy\<close>, whose arguments read the local variables
  \<^verbatim>\<open>tool_defs\<close> and \<^verbatim>\<open>last_user_text\<close>. Both are assigned only after the parse, so the
  call raises \<^verbatim>\<open>UnboundLocalError\<close>, which no handler catches: \<^verbatim>\<open>_proxy\<close> is not entered,
  nothing is sent to the backend and no response is written. This holds for every body and
  every environment. The degraded path of the claim is not taken.
\<close>

theorem malformed_body_raises:
  "do_POST env body (Inl JSONDecodeError) = Inl (UnboundLocalError ''tool_defs'')
   \<and> answer_POST env backend json_loads now body (Inl JSONDecodeError)
       = Inl (UnboundLocalError ''tool_defs'')"
  by (simp add: do_POST_def call_proxy_def answer_POST_def)

section \<open>Properties: extraction of tool calls from text\<close>













section \<open>Properties: the override instruction\<close>








end
